theory Spec2Isabelle
  imports
    Main
    "HOL-Library.Multiset"
    "HOL-Library.Log_Nat"
    "HOL-Library.Product_Lexorder"
begin

section \<open>Data model (types/index.ts)\<close>

datatype TruckSize = small | medium | large

datatype LoadPriority = high | normal | low

datatype LoadStatus = unassigned | assigned | in_transit | delivered

text \<open>
  The fields of \<open>Truck\<close> and \<open>Load\<close> that the fairness module reads or that the test
  fixtures set. \<open>weeklyLoads\<close> and \<open>minWeeklyLoads\<close> are load counts (non-negative
  integers); \<open>capacityTons\<close> and \<open>sizeTons\<close> are tonnages, which need not be whole, and
  are only ever compared. A count is never NaN, so two counts always compare as less,
  equal or greater. The fields \<open>id\<close> and \<open>size\<close> carry a prime, and \<open>id\<close> of a
  load is \<open>load_id'\<close>, to keep them apart from the constants of HOL.
\<close>

record Truck =
  id' :: string
  truckId :: string
  contractorName :: string
  size' :: TruckSize
  capacityTons :: rat
  weeklyLoads :: nat
  minWeeklyLoads :: nat
  active :: bool

record Load =
  load_id' :: string
  loadId :: string
  sizeTons :: rat
  destination :: string
  origin :: string
  priority :: LoadPriority
  deadline :: string
  status :: LoadStatus
  assignedTruckId :: "string option"


section \<open>JavaScript numbers\<close>

text \<open>
  A JavaScript \<open>number\<close> is an IEEE 754 binary64 value. The results of \<open>/\<close> and \<open>*\<close> are
  the exact results rounded to the nearest value with a 53-bit significand, ties to the
  even significand. \<open>fl\<close> is that rounding on the rationals. The exponent range is not
  bounded here (no overflow to Infinity, no subnormal numbers): every magnitude the
  fairness module computes from a fleet lies far inside it. Zero is unsigned.
\<close>

definition pow2 :: "int \<Rightarrow> rat" where
  "pow2 e = (if 0 \<le> e then 2 ^ nat e else 1 / 2 ^ nat (- e))"

text \<open>\<open>ilog2 x\<close> is the integer \<open>e\<close> with \<open>2^e \<le> x < 2^(e+1)\<close>, for \<open>x > 0\<close>.\<close>

definition ilog2 :: "rat \<Rightarrow> int" where
  "ilog2 x =
     (if 1 \<le> x then bitlen \<lfloor>x\<rfloor> - 1
      else (let k = bitlen \<lfloor>1 / x\<rfloor> - 1
            in if x * 2 ^ nat k = 1 then - k else - k - 1))"

definition round_half_even :: "rat \<Rightarrow> int" where
  "round_half_even m =
     (let f = \<lfloor>m\<rfloor>; r = m - of_int f
      in if r < 1 / 2 then f
         else if 1 / 2 < r then f + 1
         else if even f then f else f + 1)"

definition fl :: "rat \<Rightarrow> rat" where
  "fl x =
     (if x = 0 then 0
      else (let e = ilog2 \<bar>x\<bar> - 52
            in sgn x * of_int (round_half_even (\<bar>x\<bar> / pow2 e)) * pow2 e))"

datatype number = Num rat | PosInf | NegInf | NaN

text \<open>\<open>a + b\<close> on finite operands.\<close>

definition js_add :: "rat \<Rightarrow> rat \<Rightarrow> rat" where
  "js_add a b = fl (a + b)"

text \<open>\<open>a / b\<close> with a finite divisor: \<open>0 / 0\<close> is NaN, \<open>x / 0\<close> is an infinity.\<close>

fun js_div :: "number \<Rightarrow> rat \<Rightarrow> number" where
  "js_div (Num a) b =
     (if b = 0 then (if a = 0 then NaN else if 0 < a then PosInf else NegInf)
      else Num (fl (a / b)))"
| "js_div PosInf b = (if 0 \<le> b then PosInf else NegInf)"
| "js_div NegInf b = (if 0 \<le> b then NegInf else PosInf)"
| "js_div NaN b = NaN"

text \<open>\<open>a * c\<close> with a finite right operand.\<close>

fun js_mul :: "number \<Rightarrow> rat \<Rightarrow> number" where
  "js_mul (Num a) c = Num (fl (a * c))"
| "js_mul PosInf c = (if c = 0 then NaN else if 0 < c then PosInf else NegInf)"
| "js_mul NegInf c = (if c = 0 then NaN else if 0 < c then NegInf else PosInf)"
| "js_mul NaN c = NaN"

text \<open>
  \<open>Math.round\<close>: the nearest integer, a tie going to the larger one. It is computed on
  the exact value of its argument, and the result is representable.
\<close>

fun Math_round :: "number \<Rightarrow> number" where
  "Math_round (Num a) = Num (of_int \<lfloor>a + 1 / 2\<rfloor>)"
| "Math_round PosInf = PosInf"
| "Math_round NegInf = NegInf"
| "Math_round NaN = NaN"


section \<open>Fairness metrics (utils/fairness.ts)\<close>

record FairnessMetrics =
  totalTrucks :: nat
  trucksAtQuota :: nat
  trucksBelowQuota :: nat
  trucksAboveQuota :: nat
  fairnessPercentage :: number
  averageLoadsPerTruck :: number

text \<open>\<open>activeTrucks.reduce((sum, t) => sum + t.weeklyLoads, 0)\<close>\<close>

definition totalLoads :: "Truck list \<Rightarrow> rat" where
  "totalLoads activeTrucks = foldl (\<lambda>sum t. js_add sum (of_nat (weeklyLoads t))) 0 activeTrucks"

definition calculateFairnessMetrics :: "Truck list \<Rightarrow> FairnessMetrics" where
  "calculateFairnessMetrics trucks =
     (let activeTrucks = filter active trucks
      in if length activeTrucks = 0 then
           \<lparr> totalTrucks = 0, trucksAtQuota = 0, trucksBelowQuota = 0, trucksAboveQuota = 0,
             fairnessPercentage = Num 0, averageLoadsPerTruck = Num 0 \<rparr>
         else
           (let belowQuota = filter (\<lambda>t. weeklyLoads t < minWeeklyLoads t) activeTrucks;
                atQuota = filter (\<lambda>t. weeklyLoads t = minWeeklyLoads t) activeTrucks;
                aboveQuota = filter (\<lambda>t. weeklyLoads t > minWeeklyLoads t) activeTrucks
            in \<lparr> totalTrucks = length activeTrucks,
                 trucksAtQuota = length atQuota,
                 trucksBelowQuota = length belowQuota,
                 trucksAboveQuota = length aboveQuota,
                 fairnessPercentage =
                   Math_round (js_mul (js_div (Num (of_nat (length atQuota + length aboveQuota)))
                                              (of_nat (length activeTrucks))) 100),
                 averageLoadsPerTruck =
                   js_div (Math_round (js_mul (js_div (Num (totalLoads activeTrucks))
                                                      (of_nat (length activeTrucks))) 10)) 10 \<rparr>))"

text \<open>The helper of the same name in data/initialTrucks.ts: no guard for an empty fleet.\<close>

definition calculateFairnessMetrics_initialTrucks :: "Truck list \<Rightarrow> FairnessMetrics" where
  "calculateFairnessMetrics_initialTrucks trucks =
     (let activeTrucks = filter active trucks;
          belowQuota = filter (\<lambda>t. weeklyLoads t < minWeeklyLoads t) activeTrucks;
          atQuota = filter (\<lambda>t. weeklyLoads t = minWeeklyLoads t) activeTrucks;
          aboveQuota = filter (\<lambda>t. weeklyLoads t > minWeeklyLoads t) activeTrucks
      in \<lparr> totalTrucks = length activeTrucks,
           trucksAtQuota = length atQuota,
           trucksBelowQuota = length belowQuota,
           trucksAboveQuota = length aboveQuota,
           fairnessPercentage =
             Math_round (js_mul (js_div (Num (of_nat (length atQuota + length aboveQuota)))
                                        (of_nat (length activeTrucks))) 100),
           averageLoadsPerTruck =
             js_div (Math_round (js_mul (js_div (Num (totalLoads activeTrucks))
                                                (of_nat (length activeTrucks))) 10)) 10 \<rparr>)"


section \<open>Ranking and filtering (utils/fairness.ts)\<close>

text \<open>
  \<open>Array.prototype.sort(compareFn)\<close> is a stable sort (ECMAScript 2019): when the
  comparator is consistent, the result is the one stable arrangement in which
  \<open>compareFn(a, b) \<le> 0\<close> for every \<open>a\<close> placed before \<open>b\<close>. Stable insertion computes
  that arrangement. The comparators of this module subtract load counts, so their
  results are integers.
\<close>

fun js_insert :: "('a \<Rightarrow> 'a \<Rightarrow> int) \<Rightarrow> 'a \<Rightarrow> 'a list \<Rightarrow> 'a list" where
  "js_insert compareFn x [] = [x]"
| "js_insert compareFn x (y # ys) =
     (if compareFn x y \<le> 0 then x # y # ys else y # js_insert compareFn x ys)"

fun js_sort :: "('a \<Rightarrow> 'a \<Rightarrow> int) \<Rightarrow> 'a list \<Rightarrow> 'a list" where
  "js_sort compareFn [] = []"
| "js_sort compareFn (x # xs) = js_insert compareFn x (js_sort compareFn xs)"

definition getTrucksBelowQuota :: "Truck list \<Rightarrow> Truck list" where
  "getTrucksBelowQuota trucks =
     js_sort (\<lambda>a b. int (weeklyLoads a) - int (weeklyLoads b))
       (filter (\<lambda>t. active t \<and> weeklyLoads t < minWeeklyLoads t) trucks)"

definition getUnassignedLoads :: "Load list \<Rightarrow> Load list" where
  "getUnassignedLoads loads = filter (\<lambda>l. status l = unassigned) loads"

definition getLoadsNeededForQuota :: "Truck \<Rightarrow> int" where
  "getLoadsNeededForQuota truck =
     (if \<not> active truck then 0
      else max 0 (int (minWeeklyLoads truck) - int (weeklyLoads truck)))"

definition canLoadFitInTruck :: "Load \<Rightarrow> Truck \<Rightarrow> bool" where
  "canLoadFitInTruck load truck \<longleftrightarrow> active truck \<and> sizeTons load \<le> capacityTons truck"

text \<open>The comparator that \<open>findSuitableTrucks\<close> passes to \<open>sort\<close>.\<close>

definition suitableCompare :: "Truck \<Rightarrow> Truck \<Rightarrow> int" where
  "suitableCompare a b =
     (let aNeeds = getLoadsNeededForQuota a;
          bNeeds = getLoadsNeededForQuota b
      in if aNeeds \<noteq> bNeeds then bNeeds - aNeeds
         else int (weeklyLoads a) - int (weeklyLoads b))"

definition findSuitableTrucks :: "Load \<Rightarrow> Truck list \<Rightarrow> Truck list" where
  "findSuitableTrucks load trucks =
     js_sort suitableCompare (filter (\<lambda>t. canLoadFitInTruck load t) trucks)"


section \<open>Validation of assignments (utils/fairness.ts)\<close>

text \<open>An element of the \<open>assignments\<close> array: \<open>{ loadId: string; truckId: string }\<close>.\<close>

record Assignment =
  asg_loadId :: string
  asg_truckId :: string

record AssignmentValidation =
  valid :: bool
  errors :: "string list"

definition status_string :: "LoadStatus \<Rightarrow> string" where
  "status_string s =
     (case s of unassigned \<Rightarrow> ''unassigned'' | assigned \<Rightarrow> ''assigned''
      | in_transit \<Rightarrow> ''in_transit'' | delivered \<Rightarrow> ''delivered'')"

text \<open>
  The \<open>for\<close> loop over the assignments; \<open>errs\<close> is the array \<open>errors\<close> being pushed to.
  \<open>toStr\<close> is the conversion of a number to a string inside a template literal, which
  belongs to the language and is a parameter here.
\<close>

fun validate_loop ::
  "(rat \<Rightarrow> string) \<Rightarrow> Assignment list \<Rightarrow> Truck list \<Rightarrow> Load list \<Rightarrow> string list \<Rightarrow> string list"
where
  "validate_loop toStr [] trucks loads errs = errs"
| "validate_loop toStr (assignment # rest) trucks loads errs =
     (case find (\<lambda>l. loadId l = asg_loadId assignment) loads of
        None \<Rightarrow>
          validate_loop toStr rest trucks loads
            (errs @ [''Load '' @ asg_loadId assignment @ '' not found''])
      | Some load \<Rightarrow>
         (case find (\<lambda>t. truckId t = asg_truckId assignment) trucks of
            None \<Rightarrow>
              validate_loop toStr rest trucks loads
                (errs @ [''Truck '' @ asg_truckId assignment @ '' not found''])
          | Some truck \<Rightarrow>
             (let errs1 = (if \<not> active truck
                           then errs @ [''Truck '' @ asg_truckId assignment @ '' is inactive'']
                           else errs);
                  errs2 = (if sizeTons load > capacityTons truck
                           then errs1 @ [''Load '' @ asg_loadId assignment @ '' (''
                                  @ toStr (sizeTons load) @ ''T) exceeds truck ''
                                  @ asg_truckId assignment @ '' capacity (''
                                  @ toStr (capacityTons truck) @ ''T)'']
                           else errs1);
                  errs3 = (if status load \<noteq> unassigned
                           then errs2 @ [''Load '' @ asg_loadId assignment @ '' is already ''
                                  @ status_string (status load)]
                           else errs2)
              in validate_loop toStr rest trucks loads errs3)))"

definition validateAssignments ::
  "(rat \<Rightarrow> string) \<Rightarrow> Assignment list \<Rightarrow> Truck list \<Rightarrow> Load list \<Rightarrow> AssignmentValidation"
where
  "validateAssignments toStr assignments trucks loads =
     (let errs = validate_loop toStr assignments trucks loads []
      in \<lparr> valid = (length errs = 0), errors = errs \<rparr>)"


section \<open>Fixtures\<close>

text \<open>\<open>createTruck()\<close> and \<open>createLoad()\<close> of utils/fairness.test.ts, without overrides.\<close>

definition createTruck :: Truck where
  "createTruck =
     \<lparr> id' = ''1'', truckId = ''T-001'', contractorName = ''Test Trucking'', size' = large,
       capacityTons = 18, weeklyLoads = 2, minWeeklyLoads = 3, active = True \<rparr>"

definition createLoad :: Load where
  "createLoad =
     \<lparr> load_id' = ''1'', loadId = ''L-1001'', sizeTons = 8, destination = ''Kingston'',
       origin = ''JBG Depot'', priority = high, deadline = ''2026-01-14T08:00:00Z'',
       status = unassigned, assignedTruckId = None \<rparr>"

text \<open>Decimal digits of a whole number, as a template literal prints a whole tonnage.\<close>

fun decimal :: "nat \<Rightarrow> string" where
  "decimal n =
     (if n < 10 then [char_of (48 + n)]
      else decimal (n div 10) @ [char_of (48 + n mod 10)])"

definition toStr_whole :: "rat \<Rightarrow> string" where
  "toStr_whole x = decimal (nat \<lfloor>x\<rfloor>)"


text \<open>The trucks and loads of the tests of \<open>validateAssignments\<close>.\<close>

definition testTrucks :: "Truck list" where
  "testTrucks =
     [createTruck\<lparr>id' := ''1'', truckId := ''T-001'', capacityTons := 18, active := True\<rparr>,
      createTruck\<lparr>id' := ''2'', truckId := ''T-002'', capacityTons := 10, active := True\<rparr>,
      createTruck\<lparr>id' := ''3'', truckId := ''T-003'', capacityTons := 20, active := False\<rparr>]"

definition testLoads :: "Load list" where
  "testLoads =
     [createLoad\<lparr>load_id' := ''1'', loadId := ''L-1001'', sizeTons := 8, status := unassigned\<rparr>,
      createLoad\<lparr>load_id' := ''2'', loadId := ''L-1002'', sizeTons := 15, status := unassigned\<rparr>,
      createLoad\<lparr>load_id' := ''3'', loadId := ''L-1003'', sizeTons := 5, status := assigned\<rparr>]"

text \<open>A batch that assigns the unassigned load L-1001 twice, to two different trucks.\<close>

definition dupBatch :: "Assignment list" where
  "dupBatch = [\<lparr>asg_loadId = ''L-1001'', asg_truckId = ''T-001''\<rparr>,
               \<lparr>asg_loadId = ''L-1001'', asg_truckId = ''T-002''\<rparr>]"

text \<open>
  An inactive 12-ton truck T-004, and a batch of three faulty pairs: an unknown load, the
  15-ton load L-1002 on T-004, and the load L-1003 that is already assigned.
\<close>

definition smallInactive :: Truck where
  "smallInactive =
     createTruck\<lparr>id' := ''4'', truckId := ''T-004'', capacityTons := 12, active := False\<rparr>"

definition faultyBatch :: "Assignment list" where
  "faultyBatch = [\<lparr>asg_loadId = ''L-9999'', asg_truckId = ''T-001''\<rparr>,
                  \<lparr>asg_loadId = ''L-1002'', asg_truckId = ''T-004''\<rparr>,
                  \<lparr>asg_loadId = ''L-1003'', asg_truckId = ''T-001''\<rparr>]"

text \<open>
  Records that carry the identifiers T-001 and L-1001 of the test fixtures with other
  contents: an inactive 1-ton truck and a delivered 99-ton load.
\<close>

definition otherT001 :: Truck where
  "otherT001 =
     createTruck\<lparr>id' := ''9'', truckId := ''T-001'', capacityTons := 1, active := False\<rparr>"

definition otherL1001 :: Load where
  "otherL1001 =
     createLoad\<lparr>load_id' := ''9'', loadId := ''L-1001'', sizeTons := 99, status := delivered\<rparr>"

text \<open>
  A fleet of 40 active trucks for the rounding of the percentage: 23 trucks at their
  quota of 3 and 17 trucks one load short of it.
\<close>

definition fleet40 :: "Truck list" where
  "fleet40 = replicate 23 (createTruck\<lparr>weeklyLoads := 3\<rparr>) @ replicate 17 createTruck"

text \<open>The five trucks of the test of the percentage: weekly loads 2, 3, 4, 1, 5, quota 3.\<close>

definition fleet5 :: "Truck list" where
  "fleet5 =
     [createTruck\<lparr>id' := ''1'', weeklyLoads := 2\<rparr>, createTruck\<lparr>id' := ''2'', weeklyLoads := 3\<rparr>,
      createTruck\<lparr>id' := ''3'', weeklyLoads := 4\<rparr>, createTruck\<lparr>id' := ''4'', weeklyLoads := 1\<rparr>,
      createTruck\<lparr>id' := ''5'', weeklyLoads := 5\<rparr>]"


section \<open>The specification's words\<close>

text \<open>
  The fairness percentage as the specification words it: 100 times the share of the
  active trucks that are at or above quota, rounded to the nearest integer, a half
  rounding up. It is the exact value that is rounded.
\<close>

definition round_half_up :: "rat \<Rightarrow> int" where
  "round_half_up x = \<lfloor>x + 1 / 2\<rfloor>"

definition fairnessPercentage_spec :: "Truck list \<Rightarrow> int" where
  "fairnessPercentage_spec trucks =
     (let atCount = length (filter (\<lambda>t. active t \<and> weeklyLoads t = minWeeklyLoads t) trucks);
          aboveCount = length (filter (\<lambda>t. active t \<and> weeklyLoads t > minWeeklyLoads t) trucks);
          activeCount = length (filter active trucks)
      in round_half_up (100 * of_nat (atCount + aboveCount) / of_nat activeCount))"

text \<open>
  A pair passes on its own: its load and its truck are found, the truck is active, the
  load fits, and the load is still unassigned.
\<close>

definition pair_ok :: "Truck list \<Rightarrow> Load list \<Rightarrow> Assignment \<Rightarrow> bool" where
  "pair_ok trucks loads a =
     (case find (\<lambda>l. loadId l = asg_loadId a) loads of
        None \<Rightarrow> False
      | Some load \<Rightarrow>
         (case find (\<lambda>t. truckId t = asg_truckId a) trucks of
            None \<Rightarrow> False
          | Some truck \<Rightarrow>
              active truck \<and> sizeTons load \<le> capacityTons truck \<and> status load = unassigned))"

text \<open>The quota-need magnitude of the ranking, as the specification words it.\<close>

definition quotaNeed :: "Truck \<Rightarrow> int" where
  "quotaNeed t = max 0 (int (minWeeklyLoads t) - int (weeklyLoads t))"


text \<open>
  The sort key that the comparator of \<open>findSuitableTrucks\<close> orders by: the need negated
  (more need first), then the weekly loads, compared lexicographically.
\<close>

definition suitableKey :: "Truck \<Rightarrow> int \<times> nat" where
  "suitableKey t = (- getLoadsNeededForQuota t, weeklyLoads t)"


section \<open>Properties of the rounding to a double\<close>

lemma pow2_pos: "0 < pow2 e"
  by (simp add: pow2_def)

lemma pow2_Suc: "pow2 (e + 1) = 2 * pow2 e"
proof (cases "0 \<le> e")
  case True
  then show ?thesis by (simp add: pow2_def nat_add_distrib)
next
  case False
  then have "nat (- e) = Suc (nat (- e - 1))" by simp
  with False show ?thesis by (simp add: pow2_def)
qed

lemma ilog2_bounds:
  assumes "0 < x"
  shows "pow2 (ilog2 x) \<le> x \<and> x < pow2 (ilog2 x + 1)"
proof (cases "1 \<le> x")
  case True
  let ?n = "\<lfloor>x\<rfloor>"
  from True have n: "0 < ?n" by simp
  from bitlen_bounds [OF n] have lo: "2 ^ nat (bitlen ?n - 1) \<le> ?n" and hi: "?n < 2 ^ nat (bitlen ?n)"
    by simp_all
  from n have b1: "1 \<le> bitlen ?n"
    using bitlen_eq_zero_iff [of ?n] bitlen_nonneg [of ?n] by linarith
  have lo': "(2 :: rat) ^ nat (bitlen ?n - 1) \<le> x"
    using lo le_floor_iff [of "2 ^ nat (bitlen ?n - 1)" x] by simp
  have hi': "x < (2 :: rat) ^ nat (bitlen ?n)"
    using hi floor_less_iff [of x "2 ^ nat (bitlen ?n)"] by simp
  from True b1 lo' hi' show ?thesis
    by (simp add: ilog2_def pow2_def)
next
  case False
  let ?y = "1 / x"
  let ?n = "\<lfloor>?y\<rfloor>"
  let ?k = "bitlen ?n - 1"
  from False assms have y1: "1 < ?y" by simp
  then have n: "0 < ?n" by simp
  from bitlen_bounds [OF n] have lo: "2 ^ nat ?k \<le> ?n" and hi: "?n < 2 ^ nat (bitlen ?n)"
    by simp_all
  from n have b1: "1 \<le> bitlen ?n"
    using bitlen_eq_zero_iff [of ?n] bitlen_nonneg [of ?n] by linarith
  have lo': "(2 :: rat) ^ nat ?k \<le> ?y"
    using lo le_floor_iff [of "2 ^ nat ?k" ?y] by simp
  have hi': "?y < (2 :: rat) ^ nat (bitlen ?n)"
    using hi floor_less_iff [of ?y "2 ^ nat (bitlen ?n)"] by simp
  have suc: "nat (bitlen ?n) = Suc (nat ?k)" using b1 by simp
  from lo' assms have xle: "x * 2 ^ nat ?k \<le> 1"
    by (simp add: field_simps)
  from hi' assms have xgt: "1 < x * 2 ^ nat (bitlen ?n)"
    by (simp add: field_simps)
  show ?thesis
  proof (cases "x * 2 ^ nat ?k = 1")
    case True
    then have xeq: "x = 1 / 2 ^ nat ?k" by (simp add: field_simps)
    have kpos: "0 < ?k"
    proof (rule ccontr)
      assume "\<not> 0 < ?k"
      with b1 have "?k = 0" by simp
      with True have "x = 1" by simp
      with False show False by simp
    qed
    have "ilog2 x = - ?k"
      using False True by (simp add: ilog2_def Let_def)
    moreover have "pow2 (- ?k) = 1 / 2 ^ nat ?k"
      using kpos by (simp add: pow2_def)
    moreover have "pow2 (- ?k + 1) = 2 * pow2 (- ?k)" by (rule pow2_Suc)
    ultimately have "pow2 (ilog2 x) = x" and "pow2 (ilog2 x + 1) = 2 * x"
      using xeq by simp_all
    with assms show ?thesis by simp
  next
    case neq: False
    with xle have xlt: "x * 2 ^ nat ?k < 1" by simp
    have il: "ilog2 x = - ?k - 1"
      using False neq by (simp add: ilog2_def Let_def)
    have p1: "pow2 (- ?k - 1) = 1 / 2 ^ nat (bitlen ?n)"
      using b1 by (simp add: pow2_def)
    have "pow2 (- ?k - 1 + 1) = 2 * pow2 (- ?k - 1)" by (rule pow2_Suc)
    with p1 suc have p2: "pow2 (- ?k - 1 + 1) = 1 / 2 ^ nat ?k" by simp
    from xgt have "1 / 2 ^ nat (bitlen ?n) < x" by (simp add: field_simps)
    moreover from xlt have "x < 1 / 2 ^ nat ?k" by (simp add: field_simps)
    ultimately show ?thesis using il p1 p2 by simp
  qed
qed

lemma round_half_even_near: "\<bar>of_int (round_half_even m) - m\<bar> \<le> 1 / 2"
proof -
  define f :: rat where "f = of_int \<lfloor>m\<rfloor>"
  have b: "f \<le> m" "m < f + 1"
    unfolding f_def by linarith+
  have "round_half_even m = \<lfloor>m\<rfloor> \<and> m - f \<le> 1 / 2
        \<or> round_half_even m = \<lfloor>m\<rfloor> + 1 \<and> 1 / 2 \<le> m - f"
    unfolding round_half_even_def Let_def f_def by auto
  then have "of_int (round_half_even m) = f \<and> m - f \<le> 1 / 2
        \<or> of_int (round_half_even m) = f + 1 \<and> 1 / 2 \<le> m - f"
    unfolding f_def by auto
  with b show ?thesis
    by (auto simp: abs_if)
qed

lemma round_half_even_of_int: "round_half_even (of_int z) = z"
  by (simp add: round_half_even_def)

text \<open>The rounding error of \<open>fl\<close> is at most half a unit in the last place.\<close>

lemma fl_error:
  "\<bar>fl x - x\<bar> \<le> pow2 (ilog2 \<bar>x\<bar> - 52) / 2"
proof (cases "x = 0")
  case True
  then show ?thesis using pow2_pos [of "ilog2 \<bar>x\<bar> - 52"] by (simp add: fl_def)
next
  case False
  let ?e = "ilog2 \<bar>x\<bar> - 52"
  let ?m = "\<bar>x\<bar> / pow2 ?e"
  let ?r = "of_int (round_half_even ?m) :: rat"
  have p: "0 < pow2 ?e" by (rule pow2_pos)
  have x: "x = sgn x * ?m * pow2 ?e"
    using p by (simp add: mult_sgn_abs)
  have "fl x - x = sgn x * ?r * pow2 ?e - sgn x * ?m * pow2 ?e"
    using False x by (simp add: fl_def Let_def)
  also have "\<dots> = sgn x * (?r - ?m) * pow2 ?e"
    by (simp add: algebra_simps)
  finally have "\<bar>fl x - x\<bar> = \<bar>?r - ?m\<bar> * pow2 ?e"
    using False p by (simp add: abs_mult abs_sgn_eq)
  also have "\<dots> \<le> 1 / 2 * pow2 ?e"
    using round_half_even_near [of ?m] p by (intro mult_right_mono) simp_all
  finally show ?thesis by simp
qed

text \<open>Whole numbers below \<open>2^53\<close> in magnitude are doubles: \<open>fl\<close> leaves them alone.\<close>

lemma fl_of_int:
  assumes "\<bar>z\<bar> < 2 ^ 53"
  shows "fl (of_int z) = of_int z"
proof (cases "z = 0")
  case True
  then show ?thesis by (simp add: fl_def)
next
  case False
  let ?x = "of_int z :: rat"
  let ?e = "ilog2 \<bar>?x\<bar> - 52"
  from False have pos: "0 < \<bar>?x\<bar>" by simp
  from ilog2_bounds [OF pos] have "pow2 (ilog2 \<bar>?x\<bar>) \<le> \<bar>?x\<bar>" by simp
  moreover have "\<bar>?x\<bar> < 2 ^ 53"
    using assms by (metis of_int_abs of_int_less_iff of_int_numeral of_int_power)
  ultimately have lt: "pow2 (ilog2 \<bar>?x\<bar>) < 2 ^ 53" by simp
  have e: "?e \<le> 0"
  proof (rule ccontr)
    assume "\<not> ?e \<le> 0"
    then have "53 \<le> ilog2 \<bar>?x\<bar>" by simp
    then have "(2::rat) ^ 53 \<le> 2 ^ nat (ilog2 \<bar>?x\<bar>)"
      by (intro power_increasing) simp_all
    with \<open>53 \<le> ilog2 \<bar>?x\<bar>\<close> have "2 ^ 53 \<le> pow2 (ilog2 \<bar>?x\<bar>)"
      by (simp add: pow2_def)
    with lt show False by simp
  qed
  then have pe: "pow2 ?e = 1 / 2 ^ nat (- ?e)"
    by (cases "?e = 0") (simp_all add: pow2_def)
  have "\<bar>?x\<bar> / pow2 ?e = of_int (\<bar>z\<bar> * 2 ^ nat (- ?e))"
    by (simp add: pe)
  then have "round_half_even (\<bar>?x\<bar> / pow2 ?e) = \<bar>z\<bar> * 2 ^ nat (- ?e)"
    by (simp only: round_half_even_of_int)
  then have "fl ?x = sgn ?x * of_int (\<bar>z\<bar> * 2 ^ nat (- ?e)) * pow2 ?e"
    using False by (simp add: fl_def Let_def)
  also have "\<dots> = sgn ?x * \<bar>?x\<bar>"
    by (simp add: pe)
  finally show ?thesis by (simp add: mult_sgn_abs)
qed


lemma pow2_powi: "pow2 e = 2 powi e"
  by (simp add: pow2_def power_int_def field_simps)

lemma pow2_add: "pow2 (a + b) = pow2 a * pow2 b"
  by (simp add: pow2_powi power_int_add)

lemma pow2_minus_52: "pow2 (a - 52) = pow2 a / 2 ^ 52"
proof -
  have "pow2 (a - 52) * pow2 52 = pow2 a"
    using pow2_add [of "a - 52" 52] by simp
  moreover have "pow2 52 = 2 ^ 52" by (simp add: pow2_def)
  ultimately show ?thesis by (simp add: field_simps)
qed

text \<open>The relative error of one rounding is at most \<open>2^-53\<close>.\<close>

lemma fl_rel_error: "\<bar>fl x - x\<bar> \<le> \<bar>x\<bar> / 2 ^ 53"
proof (cases "x = 0")
  case True
  then show ?thesis by (simp add: fl_def)
next
  case False
  then have "0 < \<bar>x\<bar>" by simp
  from ilog2_bounds [OF this] have "pow2 (ilog2 \<bar>x\<bar>) \<le> \<bar>x\<bar>" by simp
  then have "pow2 (ilog2 \<bar>x\<bar> - 52) / 2 \<le> \<bar>x\<bar> / 2 ^ 53"
    by (simp add: pow2_minus_52 field_simps)
  with fl_error [of x] show ?thesis by simp
qed

lemma double_rounding_error:
  assumes "0 \<le> x" "x \<le> 1"
  shows "\<bar>fl (fl x * 100) - 100 * x\<bar> < 1 / 2 ^ 34"
proof -
  let ?q = "fl x"
  let ?p = "fl (?q * 100)"
  have e1: "\<bar>?q - x\<bar> \<le> 1 / 2 ^ 53"
  proof -
    have "\<bar>?q - x\<bar> \<le> \<bar>x\<bar> / 2 ^ 53" by (rule fl_rel_error)
    also have "\<dots> \<le> 1 / 2 ^ 53" using assms by (simp add: divide_right_mono)
    finally show ?thesis .
  qed
  then have q: "\<bar>?q\<bar> \<le> 1 + 1 / 2 ^ 53"
    using assms by linarith
  have "\<bar>?p - ?q * 100\<bar> \<le> \<bar>?q * 100\<bar> / 2 ^ 53" by (rule fl_rel_error)
  also have "\<dots> = \<bar>?q\<bar> * (100 / 2 ^ 53)" by (simp add: abs_mult)
  also have "\<dots> \<le> (1 + 1 / 2 ^ 53) * (100 / 2 ^ 53)"
    using q by (intro mult_right_mono) simp_all
  finally have e2: "\<bar>?p - ?q * 100\<bar> \<le> (1 + 1 / 2 ^ 53) * (100 / 2 ^ 53)" .
  have "?p - 100 * x = (?p - ?q * 100) + 100 * (?q - x)"
    by (simp add: algebra_simps)
  then have "\<bar>?p - 100 * x\<bar> \<le> \<bar>?p - ?q * 100\<bar> + \<bar>100 * (?q - x)\<bar>"
    by (simp only: abs_triangle_ineq)
  also have "\<bar>100 * (?q - x)\<bar> = 100 * \<bar>?q - x\<bar>"
    by (subst abs_mult) simp
  finally have "\<bar>?p - 100 * x\<bar> \<le> \<bar>?p - ?q * 100\<bar> + 100 * \<bar>?q - x\<bar>" .
  also have "\<dots> \<le> (1 + 1 / 2 ^ 53) * (100 / 2 ^ 53) + 100 * (1 / 2 ^ 53)"
    using e1 e2 by (intro add_mono mult_left_mono) simp_all
  also have "\<dots> < 1 / 2 ^ 34" by simp
  finally show ?thesis .
qed

text \<open>
  Off the exact halves the code's percentage is the specified one: for up to \<open>2^32\<close>
  active trucks (the bound on the length of an array), when 100 k / n is not an integer
  plus one half, the two roundings of the code cannot move the value across a half.
\<close>

lemma percentage_exact_off_halves:
  fixes k n :: nat
  assumes n: "0 < n" "n < 2 ^ 32" and k: "k \<le> n"
    and nh: "\<And>j :: int. 200 * int k \<noteq> (2 * j + 1) * int n"
  shows "Math_round (js_mul (js_div (Num (of_nat k)) (of_nat n)) 100)
           = Num (of_int (round_half_up (100 * of_nat k / of_nat n)))"
proof -
  define N :: rat where "N = of_nat n"
  define K :: rat where "K = of_nat k"
  define t :: rat where "t = 100 * K / N"
  define r where "r = \<lfloor>t + 1 / 2\<rfloor>"
  define R :: rat where "R = of_int r"
  define p where "p = fl (fl (K / N) * 100)"
  have N: "0 < N" "N < 2 ^ 32"
    using n by (simp_all add: N_def of_nat_less_numeral_power_cancel_iff)
  have KN: "0 \<le> K / N" "K / N \<le> 1"
    using k N by (simp_all add: K_def N_def)
  have "\<bar>p - 100 * (K / N)\<bar> < 1 / 2 ^ 34"
    unfolding p_def by (rule double_rounding_error [OF KN])
  then have pt: "\<bar>p - t\<bar> < 1 / 2 ^ 34" by (simp add: t_def)
  have half: "1 / 2 ^ 34 < 1 / (2 * N)"
    using N by (simp add: field_simps)
  have fl: "R \<le> t + 1 / 2" "t + 1 / 2 < R + 1"
    unfolding R_def r_def by linarith+
  have tN: "t * N = 100 * K" using N by (simp add: t_def)
  \<comment> \<open>below: the value is at least \<open>1 / (2 n)\<close> above the lower half\<close>
  have "(2 * R - 1) * N \<le> 200 * K"
  proof -
    have "(R - 1 / 2) * N \<le> t * N" using fl N by (intro mult_right_mono) simp_all
    then have "(R - 1 / 2) * N \<le> 100 * K" by (simp only: tN)
    moreover have "(2 * R - 1) * N = 2 * ((R - 1 / 2) * N)" by (simp add: algebra_simps)
    ultimately show ?thesis by linarith
  qed
  then have "(of_int ((2 * r - 1) * int n) :: rat) \<le> of_int (200 * int k)"
    by (simp add: R_def N_def K_def)
  then have "(2 * r - 1) * int n \<le> 200 * int k"
    by (simp only: of_int_le_iff)
  moreover have "200 * int k \<noteq> (2 * (r - 1) + 1) * int n" by (rule nh)
  ultimately have "(2 * r - 1) * int n + 1 \<le> 200 * int k" by simp
  then have "(of_int ((2 * r - 1) * int n + 1) :: rat) \<le> of_int (200 * int k)"
    by (simp only: of_int_le_iff)
  then have "(2 * R - 1) * N + 1 \<le> 200 * K"
    by (simp add: R_def N_def K_def)
  then have "((2 * R - 1) * N + 1) / (2 * N) \<le> (200 * K) / (2 * N)"
    using N by (intro divide_right_mono) simp_all
  moreover have "((2 * R - 1) * N + 1) / (2 * N) = R - 1 / 2 + 1 / (2 * N)"
    using N by (simp add: field_simps)
  moreover have "(200 * K) / (2 * N) = t"
    by (simp add: t_def)
  ultimately have lo: "R - 1 / 2 + 1 / (2 * N) \<le> t" by simp
  \<comment> \<open>above: the value is at least \<open>1 / (2 n)\<close> below the upper half\<close>
  have "200 * K < (2 * R + 1) * N"
  proof -
    have "t * N < (R + 1 / 2) * N" using fl N by (intro mult_strict_right_mono) simp_all
    then have "100 * K < (R + 1 / 2) * N" by (simp only: tN)
    moreover have "(2 * R + 1) * N = 2 * ((R + 1 / 2) * N)" by (simp add: algebra_simps)
    ultimately show ?thesis by linarith
  qed
  then have "(of_int (200 * int k) :: rat) < of_int ((2 * r + 1) * int n)"
    by (simp add: R_def N_def K_def)
  then have "200 * int k < (2 * r + 1) * int n"
    by (simp only: of_int_less_iff)
  then have "200 * int k + 1 \<le> (2 * r + 1) * int n" by simp
  then have "(of_int (200 * int k + 1) :: rat) \<le> of_int ((2 * r + 1) * int n)"
    by (simp only: of_int_le_iff)
  then have "200 * K + 1 \<le> (2 * R + 1) * N"
    by (simp add: R_def N_def K_def)
  then have "(200 * K + 1) / (2 * N) \<le> ((2 * R + 1) * N) / (2 * N)"
    using N by (intro divide_right_mono) simp_all
  moreover have "((2 * R + 1) * N) / (2 * N) = R + 1 / 2"
    using N by (simp add: field_simps)
  moreover have "(200 * K + 1) / (2 * N) = t + 1 / (2 * N)"
    by (simp add: t_def add_divide_distrib)
  ultimately have hi: "t \<le> R + 1 / 2 - 1 / (2 * N)" by simp
  from pt half lo hi have "R \<le> p + 1 / 2" "p + 1 / 2 < R + 1"
    by (simp_all add: abs_if split: if_splits)
  then have "\<lfloor>p + 1 / 2\<rfloor> = r"
    unfolding R_def by (intro floor_unique) simp_all
  moreover have "Math_round (js_mul (js_div (Num (of_nat k)) (of_nat n)) 100)
                   = Num (of_int \<lfloor>p + 1 / 2\<rfloor>)"
    using n by (simp add: p_def K_def N_def)
  moreover have "round_half_up (100 * of_nat k / of_nat n) = r"
    by (simp add: round_half_up_def r_def t_def K_def N_def)
  ultimately show ?thesis by simp
qed


section \<open>Properties of the fairness metrics\<close>

text \<open>
  C1. A fleet with no active truck (the empty fleet, or inactive trucks only) gets the
  metrics object whose six fields are all the number 0; the percentage and the average
  are 0 and not NaN.
\<close>

theorem calculateFairnessMetrics_no_active:
  assumes "filter active trucks = []"
  shows "calculateFairnessMetrics trucks =
           \<lparr> totalTrucks = 0, trucksAtQuota = 0, trucksBelowQuota = 0, trucksAboveQuota = 0,
             fairnessPercentage = Num 0, averageLoadsPerTruck = Num 0 \<rparr>"
  using assms by (simp add: calculateFairnessMetrics_def)

theorem calculateFairnessMetrics_no_active_witness:
  "filter active [createTruck\<lparr>active := False\<rparr>,
                  createTruck\<lparr>weeklyLoads := 5, active := False\<rparr>] = []
   \<and> calculateFairnessMetrics [createTruck\<lparr>active := False\<rparr>,
                                createTruck\<lparr>weeklyLoads := 5, active := False\<rparr>] =
           \<lparr> totalTrucks = 0, trucksAtQuota = 0, trucksBelowQuota = 0, trucksAboveQuota = 0,
             fairnessPercentage = Num 0, averageLoadsPerTruck = Num 0 \<rparr>
   \<and> calculateFairnessMetrics [] =
           \<lparr> totalTrucks = 0, trucksAtQuota = 0, trucksBelowQuota = 0, trucksAboveQuota = 0,
             fairnessPercentage = Num 0, averageLoadsPerTruck = Num 0 \<rparr>"
  using calculateFairnessMetrics_no_active
          [of "[createTruck\<lparr>active := False\<rparr>,
                createTruck\<lparr>weeklyLoads := 5, active := False\<rparr>]"]
        calculateFairnessMetrics_no_active [of "[]"]
  by (simp add: createTruck_def)

lemma length_filter_trichotomy:
  fixes f g :: "'a \<Rightarrow> nat"
  shows "length (filter (\<lambda>t. f t < g t) xs) + length (filter (\<lambda>t. f t = g t) xs)
         + length (filter (\<lambda>t. f t > g t) xs) = length xs"
  by (induction xs) auto

text \<open>
  C3. The three quota counts add up to \<open>totalTrucks\<close>, which is the number of active
  trucks of the input; each count is the number of active trucks whose \<open>weeklyLoads\<close> is
  below, equal to, or above its \<open>minWeeklyLoads\<close>.
\<close>

theorem calculateFairnessMetrics_partition:
  "trucksBelowQuota (calculateFairnessMetrics trucks)
     + trucksAtQuota (calculateFairnessMetrics trucks)
     + trucksAboveQuota (calculateFairnessMetrics trucks)
   = totalTrucks (calculateFairnessMetrics trucks)
   \<and> totalTrucks (calculateFairnessMetrics trucks) = length (filter active trucks)
   \<and> trucksBelowQuota (calculateFairnessMetrics trucks)
       = length (filter (\<lambda>t. active t \<and> weeklyLoads t < minWeeklyLoads t) trucks)
   \<and> trucksAtQuota (calculateFairnessMetrics trucks)
       = length (filter (\<lambda>t. active t \<and> weeklyLoads t = minWeeklyLoads t) trucks)
   \<and> trucksAboveQuota (calculateFairnessMetrics trucks)
       = length (filter (\<lambda>t. active t \<and> weeklyLoads t > minWeeklyLoads t) trucks)"
proof (cases "filter active trucks = []")
  case True
  then show ?thesis
    by (simp add: calculateFairnessMetrics_def filter_empty_conv)
next
  case False
  have both: "\<And>P. filter P (filter active trucks) = filter (\<lambda>t. active t \<and> P t) trucks"
    by (simp add: conj_commute)
  from False show ?thesis
    using length_filter_trichotomy [of weeklyLoads minWeeklyLoads "filter active trucks"]
    by (simp add: calculateFairnessMetrics_def Let_def both)
qed

text \<open>
  C2. The helper in data/initialTrucks.ts has no guard for a fleet without active trucks:
  there it divides 0 by 0, so its percentage and its average are NaN, where the fairness
  module returns 0. The two functions differ on the empty collection.
\<close>

theorem calculateFairnessMetrics_initialTrucks_empty:
  "calculateFairnessMetrics_initialTrucks [] =
     \<lparr> totalTrucks = 0, trucksAtQuota = 0, trucksBelowQuota = 0, trucksAboveQuota = 0,
       fairnessPercentage = NaN, averageLoadsPerTruck = NaN \<rparr>
   \<and> calculateFairnessMetrics [] =
     \<lparr> totalTrucks = 0, trucksAtQuota = 0, trucksBelowQuota = 0, trucksAboveQuota = 0,
       fairnessPercentage = Num 0, averageLoadsPerTruck = Num 0 \<rparr>
   \<and> calculateFairnessMetrics_initialTrucks [] \<noteq> calculateFairnessMetrics []"
  by (simp add: calculateFairnessMetrics_initialTrucks_def calculateFairnessMetrics_def
      totalLoads_def)

text \<open>With at least one active truck the two functions run the same computation.\<close>

lemma calculateFairnessMetrics_initialTrucks_agree:
  assumes "filter active trucks \<noteq> []"
  shows "calculateFairnessMetrics_initialTrucks trucks = calculateFairnessMetrics trucks"
  using assms
  by (simp add: calculateFairnessMetrics_initialTrucks_def calculateFairnessMetrics_def Let_def)

text \<open>
  The quotient 23 / 40 is not a binary fraction. Its nearest double lies below 0.575, and
  the product of that double with 100, rounded again, lies below 57.5.
\<close>

lemma fl_23_40:
  "fl (23 / 40) = 2589569785738035 / 4503599627370496"
  "fl (2589569785738035 / 4503599627370496 * 100) = 8092405580431359 / 140737488355328"
  "(8092405580431359 :: rat) / 140737488355328 < 115 / 2"
  by code_simp+

lemma pct_23_40: "Math_round (js_mul (js_div (Num 23) 40) 100) = Num 57"
  by code_simp

lemma pct_3_5: "Math_round (js_mul (js_div (Num 3) 5) 100) = Num 60"
  by code_simp

text \<open>
  Multiplying first, as the specification writes the formula, is exact here: 2300 / 40
  is the double 57.5, and \<open>Math.round\<close> gives 58.
\<close>

lemma pct_times_first_23_40: "Math_round (js_div (Num (fl (100 * 23))) 40) = Num 58"
  by code_simp

lemma fleet40_counts:
  "fleet40 \<noteq> []"
  "filter active fleet40 = fleet40"
  "length fleet40 = 40"
  "length (filter (\<lambda>t. weeklyLoads t = minWeeklyLoads t) fleet40) = 23"
  "length (filter (\<lambda>t. weeklyLoads t > minWeeklyLoads t) fleet40) = 0"
  by (simp_all add: fleet40_def createTruck_def)

lemma fleet5_counts:
  "fleet5 \<noteq> []"
  "filter active fleet5 = fleet5"
  "length fleet5 = 5"
  "length (filter (\<lambda>t. weeklyLoads t = minWeeklyLoads t) fleet5) = 1"
  "length (filter (\<lambda>t. weeklyLoads t > minWeeklyLoads t) fleet5) = 2"
  by (simp_all add: fleet5_def createTruck_def)

text \<open>
  C9. On the fleet of 40 active trucks with 23 at quota, the exact percentage is 57.5 and
  rounds half-up to 58; the code computes \<open>(23 / 40) * 100\<close> in doubles and returns 57.
\<close>

theorem fairnessPercentage_fleet40:
  "length (filter active fleet40) = 40
   \<and> fairnessPercentage (calculateFairnessMetrics fleet40) = Num 57
   \<and> fairnessPercentage_spec fleet40 = 58"
proof -
  have "fairnessPercentage (calculateFairnessMetrics fleet40) = Num 57"
    by (simp add: calculateFairnessMetrics_def Let_def fleet40_counts pct_23_40
        del: js_div.simps js_mul.simps Math_round.simps)
  moreover have "fairnessPercentage_spec fleet40 = 58"
    by (simp add: fairnessPercentage_spec_def round_half_up_def Let_def fleet40_def
        createTruck_def)
  ultimately show ?thesis
    by (simp add: fleet40_counts)
qed

text \<open>The five trucks of the test suite: three of five at or above quota give 60.\<close>

lemma fairnessPercentage_fleet5:
  "fairnessPercentage (calculateFairnessMetrics fleet5) = Num 60"
  "fairnessPercentage_spec fleet5 = 60"
proof -
  show "fairnessPercentage (calculateFairnessMetrics fleet5) = Num 60"
    by (simp add: calculateFairnessMetrics_def Let_def fleet5_counts pct_3_5
        del: js_div.simps js_mul.simps Math_round.simps)
  show "fairnessPercentage_spec fleet5 = 60"
    by code_simp
qed

lemma length_filter_at_above:
  fixes f g :: "'a \<Rightarrow> nat"
  shows "length (filter (\<lambda>t. f t = g t) xs) + length (filter (\<lambda>t. f t > g t) xs) \<le> length xs"
  using length_filter_trichotomy [of f g xs] by linarith

text \<open>
  The percentage of a fleet is the specified one whenever the exact percentage is not an
  integer plus one half.
\<close>

lemma fairnessPercentage_exact_off_halves:
  assumes act: "filter active trucks \<noteq> []" "length (filter active trucks) < 2 ^ 32"
    and nh: "\<And>j :: int.
       200 * int (length (filter (\<lambda>t. active t \<and> weeklyLoads t = minWeeklyLoads t) trucks)
                  + length (filter (\<lambda>t. active t \<and> weeklyLoads t > minWeeklyLoads t) trucks))
         \<noteq> (2 * j + 1) * int (length (filter active trucks))"
  shows "fairnessPercentage (calculateFairnessMetrics trucks)
           = Num (of_int (fairnessPercentage_spec trucks))"
proof -
  let ?A = "filter active trucks"
  let ?k = "length (filter (\<lambda>t. weeklyLoads t = minWeeklyLoads t) ?A)
            + length (filter (\<lambda>t. weeklyLoads t > minWeeklyLoads t) ?A)"
  have both: "\<And>P. filter P ?A = filter (\<lambda>t. active t \<and> P t) trucks"
    by (simp add: conj_commute)
  have n: "0 < length ?A" using act(1) by simp
  have k: "?k \<le> length ?A" by (rule length_filter_at_above)
  have nh': "200 * int ?k \<noteq> (2 * j + 1) * int (length ?A)" for j :: int
    using nh [of j] by (simp add: both)
  have "fairnessPercentage (calculateFairnessMetrics trucks)
          = Math_round (js_mul (js_div (Num (of_nat ?k)) (of_nat (length ?A))) 100)"
    using act(1) by (simp add: calculateFairnessMetrics_def Let_def
        del: js_div.simps js_mul.simps Math_round.simps of_nat_add)
  also have "\<dots> = Num (of_int (round_half_up (100 * of_nat ?k / of_nat (length ?A))))"
    by (rule percentage_exact_off_halves [OF n act(2) k nh'])
  also have "round_half_up (100 * of_nat ?k / of_nat (length ?A)) = fairnessPercentage_spec trucks"
    by (simp add: fairnessPercentage_spec_def Let_def both)
  finally show ?thesis .
qed


section \<open>Properties of the rankings\<close>

text \<open>
  When the comparator is the order of a key, \<open>js_sort\<close> is the stable sort by that key.
\<close>

lemma js_insert_insort_key:
  assumes "\<And>a b. (compareFn a b \<le> 0) = (key a \<le> key b)"
  shows "js_insert compareFn x ys = insort_key key x ys"
  by (induction ys) (simp_all add: assms)

lemma js_sort_sort_key:
  assumes "\<And>a b. (compareFn a b \<le> 0) = (key a \<le> key b)"
  shows "js_sort compareFn xs = sort_key key xs"
proof (induction xs)
  case Nil
  show ?case by simp
next
  case (Cons x xs)
  then show ?case
    using js_insert_insort_key [of compareFn key, OF assms] by (simp add: sort_key_def)
qed

text \<open>
  The sorted, stable arrangement of a list is unique, so the result does not depend on
  the sorting algorithm of the engine.
\<close>

lemma js_sort_unique:
  assumes "\<And>a b. (compareFn a b \<le> 0) = (key a \<le> key b)"
    and "mset ys = mset xs"
    and "sorted (map key ys)"
    and "\<And>k. filter (\<lambda>x. key x = k) ys = filter (\<lambda>x. key x = k) xs"
  shows "js_sort compareFn xs = ys"
proof -
  have "sort_key key xs = ys"
  proof (rule properties_for_sort_key [OF assms(2) _ assms(3)])
    fix k
    assume "k \<in> set ys"
    have "(\<lambda>x. key k = key x) = (\<lambda>x. key x = key k)" by auto
    then show "filter (\<lambda>x. key k = key x) ys = filter (\<lambda>x. key k = key x) xs"
      using assms(4) [of "key k"] by simp
  qed
  then show ?thesis
    by (simp add: js_sort_sort_key [of compareFn key, OF assms(1)])
qed

lemma getTrucksBelowQuota_sort_key:
  "getTrucksBelowQuota trucks =
     sort_key weeklyLoads (filter (\<lambda>t. active t \<and> weeklyLoads t < minWeeklyLoads t) trucks)"
  unfolding getTrucksBelowQuota_def
  by (rule js_sort_sort_key) auto

text \<open>
  C6. \<open>getTrucksBelowQuota\<close> returns exactly the active trucks below quota (as a
  multiset, and so as a set: no inactive truck and no truck at or above quota), in order
  of non-decreasing \<open>weeklyLoads\<close>, and for every load count the trucks with that count
  appear in their order of the input.
\<close>

theorem getTrucksBelowQuota_ranked:
  "mset (getTrucksBelowQuota trucks)
     = mset (filter (\<lambda>t. active t \<and> weeklyLoads t < minWeeklyLoads t) trucks)
   \<and> sorted (map weeklyLoads (getTrucksBelowQuota trucks))
   \<and> (\<forall>k. filter (\<lambda>t. weeklyLoads t = k) (getTrucksBelowQuota trucks)
         = filter (\<lambda>t. weeklyLoads t = k)
             (filter (\<lambda>t. active t \<and> weeklyLoads t < minWeeklyLoads t) trucks))
   \<and> set (getTrucksBelowQuota trucks)
       = {t. t \<in> set trucks \<and> active t \<and> weeklyLoads t < minWeeklyLoads t}"
  unfolding getTrucksBelowQuota_sort_key
  by (auto simp: sort_key_stable)

lemma suitableCompare_key: "(suitableCompare a b \<le> 0) = (suitableKey a \<le> suitableKey b)"
  by (auto simp: suitableCompare_def suitableKey_def Let_def less_eq_prod_def)

lemma findSuitableTrucks_sort_key:
  "findSuitableTrucks load trucks =
     sort_key suitableKey (filter (\<lambda>t. canLoadFitInTruck load t) trucks)"
  unfolding findSuitableTrucks_def
  by (rule js_sort_sort_key) (rule suitableCompare_key)

text \<open>
  C5. \<open>findSuitableTrucks\<close> returns exactly the trucks that are active and whose
  capacity is at least the size of the load (equality included), ordered by the need
  \<open>max(0, minWeeklyLoads - weeklyLoads)\<close> descending and, where the need is equal, by
  \<open>weeklyLoads\<close> ascending.
\<close>

theorem findSuitableTrucks_ranked:
  "mset (findSuitableTrucks load trucks)
     = mset (filter (\<lambda>t. active t \<and> sizeTons load \<le> capacityTons t) trucks)
   \<and> sorted_wrt (\<lambda>a b. quotaNeed a > quotaNeed b
                       \<or> (quotaNeed a = quotaNeed b \<and> weeklyLoads a \<le> weeklyLoads b))
        (findSuitableTrucks load trucks)"
proof -
  let ?out = "findSuitableTrucks load trucks"
  have m: "mset ?out = mset (filter (\<lambda>t. active t \<and> sizeTons load \<le> capacityTons t) trucks)"
    by (simp add: findSuitableTrucks_sort_key canLoadFitInTruck_def)
  have act: "active t" if "t \<in> set ?out" for t
    using that by (simp add: findSuitableTrucks_sort_key canLoadFitInTruck_def)
  have "sorted (map suitableKey ?out)"
    by (simp add: findSuitableTrucks_sort_key)
  then have s: "sorted_wrt (\<lambda>a b. suitableKey a \<le> suitableKey b) ?out"
    by (simp add: sorted_map)
  have "sorted_wrt (\<lambda>a b. quotaNeed a > quotaNeed b
                       \<or> (quotaNeed a = quotaNeed b \<and> weeklyLoads a \<le> weeklyLoads b)) ?out"
  proof (rule sorted_wrt_mono_rel [OF _ s])
    fix a b
    assume "a \<in> set ?out" "b \<in> set ?out" "suitableKey a \<le> suitableKey b"
    then show "quotaNeed a > quotaNeed b
                 \<or> (quotaNeed a = quotaNeed b \<and> weeklyLoads a \<le> weeklyLoads b)"
      using act [of a] act [of b]
      by (auto simp: suitableKey_def getLoadsNeededForQuota_def quotaNeed_def less_eq_prod_def)
  qed
  with m show ?thesis by simp
qed

section \<open>Properties of the validation\<close>

text \<open>One turn of the loop appends the errors of its pair to the errors so far.\<close>

lemma validate_loop_step:
  "validate_loop toStr (a # as) trucks loads errs
     = validate_loop toStr as trucks loads (errs @ validate_loop toStr [a] trucks loads [])"
  by (simp add: Let_def split: option.split)

lemma validate_loop_concat_acc:
  "validate_loop toStr as trucks loads errs
     = errs @ concat (map (\<lambda>a. validate_loop toStr [a] trucks loads []) as)"
proof (induction as arbitrary: errs)
  case Nil
  show ?case by simp
next
  case (Cons a as)
  have "validate_loop toStr (a # as) trucks loads errs
          = validate_loop toStr as trucks loads (errs @ validate_loop toStr [a] trucks loads [])"
    by (rule validate_loop_step)
  also have "\<dots> = (errs @ validate_loop toStr [a] trucks loads [])
                     @ concat (map (\<lambda>a. validate_loop toStr [a] trucks loads []) as)"
    by (rule Cons.IH)
  finally show ?case
    by (simp del: validate_loop.simps)
qed

lemma validate_loop_concat:
  "validate_loop toStr as trucks loads []
     = concat (map (\<lambda>a. validate_loop toStr [a] trucks loads []) as)"
  using validate_loop_concat_acc [of toStr as trucks loads "[]"]
  by (simp del: validate_loop.simps)

lemma errors_validateAssignments:
  "errors (validateAssignments toStr as trucks loads) = validate_loop toStr as trucks loads []"
  by (simp add: validateAssignments_def Let_def)

lemma valid_validateAssignments:
  "valid (validateAssignments toStr as trucks loads)
     = (validate_loop toStr as trucks loads [] = [])"
  by (simp add: validateAssignments_def Let_def)

lemma single_pair_ok:
  "(validate_loop toStr [a] trucks loads [] = []) = pair_ok trucks loads a"
  by (auto simp: pair_ok_def Let_def split: option.split)

lemma toStr_whole_values:
  "toStr_whole 15 = ''15''" "toStr_whole 12 = ''12''"
  by code_simp+

text \<open>
  C7. The \<open>valid\<close> flag says that the list of errors is empty, and the empty batch is
  valid with no errors, whatever the trucks and loads.
\<close>

theorem validateAssignments_valid_iff_no_errors:
  "valid (validateAssignments toStr assignments trucks loads)
     = (errors (validateAssignments toStr assignments trucks loads) = [])
   \<and> validateAssignments toStr [] trucks loads = \<lparr> valid = True, errors = [] \<rparr>"
  by (simp add: validateAssignments_def Let_def)

text \<open>
  C4, as claimed, fails: the batch \<open>dupBatch\<close> names the unassigned load L-1001 in two
  different pairs, each pair passes on its own, and the batch is reported valid with no
  error.
\<close>

theorem validateAssignments_duplicate_counterexample:
  "asg_loadId (dupBatch ! 0) = asg_loadId (dupBatch ! 1)
   \<and> dupBatch ! 0 \<noteq> dupBatch ! 1
   \<and> pair_ok testTrucks testLoads (dupBatch ! 0)
   \<and> pair_ok testTrucks testLoads (dupBatch ! 1)
   \<and> validateAssignments toStr_whole dupBatch testTrucks testLoads
       = \<lparr> valid = True, errors = [] \<rparr>"
  by (simp add: validateAssignments_def pair_ok_def dupBatch_def testTrucks_def testLoads_def
      createTruck_def createLoad_def)

text \<open>
  The errors of a pair whose load and truck are found: the three checks in the order
  of the source, each adding its message or nothing.
\<close>

lemma single_pair_errors:
  assumes "find (\<lambda>l. loadId l = asg_loadId a) loads = Some load"
    and "find (\<lambda>t. truckId t = asg_truckId a) trucks = Some truck"
  shows "validate_loop toStr [a] trucks loads []
     = (if \<not> active truck then [''Truck '' @ asg_truckId a @ '' is inactive''] else [])
       @ (if sizeTons load > capacityTons truck
          then [''Load '' @ asg_loadId a @ '' ('' @ toStr (sizeTons load)
                @ ''T) exceeds truck '' @ asg_truckId a @ '' capacity (''
                @ toStr (capacityTons truck) @ ''T)'']
          else [])
       @ (if status load \<noteq> unassigned
          then [''Load '' @ asg_loadId a @ '' is already '' @ status_string (status load)]
          else [])"
  using assms by (simp add: Let_def)

lemma pair_errors_subset:
  assumes "a \<in> set as"
  shows "set (validate_loop toStr [a] trucks loads [])
           \<subseteq> set (validate_loop toStr as trucks loads [])"
  using assms
  by (subst (2) validate_loop_concat) (auto simp del: validate_loop.simps)

lemma errors_concat:
  "errors (validateAssignments toStr as trucks loads)
     = concat (map (\<lambda>p. errors (validateAssignments toStr [p] trucks loads)) as)"
  using validate_loop_concat [of toStr as trucks loads]
  by (simp add: errors_validateAssignments del: validate_loop.simps)

lemma find_append_first:
  assumes "x \<in> set xs" "P x"
  shows "find P (xs @ ys) = find P xs"
  using assms by (induction xs) auto

lemma find_skip:
  assumes "\<not> P y"
  shows "find P (xs @ y # ys) = find P (xs @ ys)"
  using assms by (induction xs) auto

text \<open>
  \<open>find\<close> returns the first element that matches, and what comes after it is not looked
  at: a record whose identifier already occurs earlier can be dropped from any lookup.
\<close>

lemma find_first:
  assumes "list_all (\<lambda>y. \<not> P y) ys" "P x"
  shows "find P (ys @ x # zs) = Some x"
  using assms by (induction ys) auto

lemma find_first_match:
  assumes "find P xs = Some x"
  shows "\<exists>ys zs. xs = ys @ x # zs \<and> P x \<and> list_all (\<lambda>y. \<not> P y) ys"
  using assms
proof (induction xs)
  case Nil
  then show ?case by simp
next
  case (Cons y xs)
  show ?case
  proof (cases "P y")
    case True
    with Cons.prems have "x = y" by simp
    with True have "y # xs = [] @ x # xs \<and> P x \<and> list_all (\<lambda>y. \<not> P y) []" by simp
    then show ?thesis by blast
  next
    case False
    with Cons.prems have "find P xs = Some x" by simp
    from Cons.IH [OF this] obtain ys zs
      where "xs = ys @ x # zs" "P x" "list_all (\<lambda>y. \<not> P y) ys" by blast
    with False have "y # xs = (y # ys) @ x # zs \<and> P x \<and> list_all (\<lambda>y. \<not> P y) (y # ys)"
      by simp
    then show ?thesis by blast
  qed
qed

lemma find_drop_later:
  assumes "x \<in> set xs" "key x = key y"
  shows "find (\<lambda>r. key r = k) (xs @ y # ys) = find (\<lambda>r. key r = k) (xs @ ys)"
proof (cases "key y = k")
  case True
  with assms have "key x = k" by simp
  with assms(1) show ?thesis
    using find_append_first [of x xs "\<lambda>r. key r = k"] by simp
next
  case False
  then show ?thesis by (rule find_skip)
qed

lemma validate_loop_cong_find:
  assumes "\<And>k. find (\<lambda>t. truckId t = k) trucks = find (\<lambda>t. truckId t = k) trucks'"
    and "\<And>k. find (\<lambda>l. loadId l = k) loads = find (\<lambda>l. loadId l = k) loads'"
  shows "validate_loop toStr as trucks loads errs = validate_loop toStr as trucks' loads' errs"
proof (induction as arbitrary: errs)
  case Nil
  show ?case by simp
next
  case (Cons a as)
  show ?case
    by (simp add: assms Cons.IH Let_def split: option.split)
qed

lemma toStr_whole_values_more:
  "toStr_whole 99 = ''99''" "toStr_whole 1 = ''1''"
  by code_simp+

text \<open>
  C4, amended. There is no rule about a load that occurs twice in a batch. The errors
  of a batch are the errors of its pairs, each validated alone, one after the other; the
  batch is valid, and its list of errors empty, exactly when every pair passes on its own
  (load found, truck found, truck active, load within capacity, load unassigned). What
  is reported about an earlier assignment is the status of the load: a pair whose load
  and truck are found and whose load is not unassigned yields the message
  \<open>Load {loadId} is already {status}\<close>.
\<close>

theorem validateAssignments_valid_iff_pairs:
  "valid (validateAssignments toStr assignments trucks loads)
     = list_all (pair_ok trucks loads) assignments
   \<and> (errors (validateAssignments toStr assignments trucks loads) = [])
     = list_all (pair_ok trucks loads) assignments
   \<and> errors (validateAssignments toStr assignments trucks loads)
     = concat (map (\<lambda>p. errors (validateAssignments toStr [p] trucks loads)) assignments)
   \<and> (a \<in> set assignments
      \<and> find (\<lambda>l. loadId l = asg_loadId a) loads = Some load
      \<and> find (\<lambda>t. truckId t = asg_truckId a) trucks = Some truck
      \<and> status load \<noteq> unassigned
      \<longrightarrow> ''Load '' @ asg_loadId a @ '' is already '' @ status_string (status load)
            \<in> set (errors (validateAssignments toStr assignments trucks loads)))"
proof -
  have v: "valid (validateAssignments toStr assignments trucks loads)
             = list_all (pair_ok trucks loads) assignments"
    unfolding valid_validateAssignments
    by (subst validate_loop_concat)
       (simp add: single_pair_ok list_all_iff del: validate_loop.simps)
  then have e: "(errors (validateAssignments toStr assignments trucks loads) = [])
             = list_all (pair_ok trucks loads) assignments"
    by (simp add: valid_validateAssignments errors_validateAssignments
        del: validate_loop.simps)
  have m: "''Load '' @ asg_loadId a @ '' is already '' @ status_string (status load)
            \<in> set (errors (validateAssignments toStr assignments trucks loads))"
    if "a \<in> set assignments"
      and "find (\<lambda>l. loadId l = asg_loadId a) loads = Some load"
      and "find (\<lambda>t. truckId t = asg_truckId a) trucks = Some truck"
      and "status load \<noteq> unassigned"
  proof -
    have "''Load '' @ asg_loadId a @ '' is already '' @ status_string (status load)
            \<in> set (validate_loop toStr [a] trucks loads [])"
      using that(4) by (simp add: single_pair_errors [OF that(2) that(3)]
          del: validate_loop.simps)
    with pair_errors_subset [OF that(1), of toStr trucks loads] show ?thesis
      by (auto simp: errors_validateAssignments simp del: validate_loop.simps)
  qed
  from v e m errors_concat [of toStr assignments trucks loads] show ?thesis
    by blast
qed

theorem validateAssignments_valid_iff_pairs_witness:
  "list_all (pair_ok testTrucks testLoads) dupBatch
   \<and> validateAssignments toStr_whole dupBatch testTrucks testLoads
       = \<lparr> valid = True, errors = [] \<rparr>
   \<and> \<lparr>asg_loadId = ''L-1003'', asg_truckId = ''T-003''\<rparr>
       \<in> set [\<lparr>asg_loadId = ''L-1001'', asg_truckId = ''T-001''\<rparr>,
               \<lparr>asg_loadId = ''L-1003'', asg_truckId = ''T-003''\<rparr>]
   \<and> find (\<lambda>l. loadId l = ''L-1003'') testLoads = Some (testLoads ! 2)
   \<and> find (\<lambda>t. truckId t = ''T-003'') testTrucks = Some (testTrucks ! 2)
   \<and> status (testLoads ! 2) \<noteq> unassigned
   \<and> ''Load L-1003 is already assigned''
       \<in> set (errors (validateAssignments toStr_whole
                        [\<lparr>asg_loadId = ''L-1001'', asg_truckId = ''T-001''\<rparr>,
                         \<lparr>asg_loadId = ''L-1003'', asg_truckId = ''T-003''\<rparr>]
                        testTrucks testLoads))
   \<and> validateAssignments toStr_whole
        [\<lparr>asg_loadId = ''L-1001'', asg_truckId = ''T-001''\<rparr>,
         \<lparr>asg_loadId = ''L-1003'', asg_truckId = ''T-003''\<rparr>] testTrucks testLoads
       = \<lparr> valid = False,
           errors = [''Truck T-003 is inactive'', ''Load L-1003 is already assigned''] \<rparr>"
proof -
  let ?a = "\<lparr>asg_loadId = ''L-1003'', asg_truckId = ''T-003''\<rparr>"
  let ?batch = "[\<lparr>asg_loadId = ''L-1001'', asg_truckId = ''T-001''\<rparr>, ?a]"
  have p: "list_all (pair_ok testTrucks testLoads) dupBatch"
    by (simp add: pair_ok_def dupBatch_def testTrucks_def testLoads_def createTruck_def
        createLoad_def)
  have h1: "?a \<in> set ?batch" by simp
  have h2: "find (\<lambda>l. loadId l = ''L-1003'') testLoads = Some (testLoads ! 2)"
    by (simp add: testLoads_def createLoad_def)
  have h3: "find (\<lambda>t. truckId t = ''T-003'') testTrucks = Some (testTrucks ! 2)"
    by (simp add: testTrucks_def createTruck_def)
  have h4: "status (testLoads ! 2) \<noteq> unassigned"
    by (simp add: testLoads_def)
  have s: "status_string (status (testLoads ! 2)) = ''assigned''"
    by (simp add: testLoads_def status_string_def)
  note d = validateAssignments_valid_iff_pairs
             [of toStr_whole dupBatch testTrucks testLoads]
  note c = validateAssignments_valid_iff_pairs
             [of toStr_whole ?batch testTrucks testLoads ?a "testLoads ! 2" "testTrucks ! 2"]
  from d p have dv: "valid (validateAssignments toStr_whole dupBatch testTrucks testLoads)"
    and de: "errors (validateAssignments toStr_whole dupBatch testTrucks testLoads) = []"
    by blast+
  then have r1: "validateAssignments toStr_whole dupBatch testTrucks testLoads
                   = \<lparr> valid = True, errors = [] \<rparr>"
    by (cases "validateAssignments toStr_whole dupBatch testTrucks testLoads") simp
  have h2': "find (\<lambda>l. loadId l = asg_loadId ?a) testLoads = Some (testLoads ! 2)"
    using h2 by simp
  have h3': "find (\<lambda>t. truckId t = asg_truckId ?a) testTrucks = Some (testTrucks ! 2)"
    using h3 by simp
  from c h1 h2' h3' h4
  have "''Load '' @ asg_loadId ?a @ '' is already '' @ status_string (status (testLoads ! 2))
          \<in> set (errors (validateAssignments toStr_whole ?batch testTrucks testLoads))"
    by blast
  then have r2: "''Load L-1003 is already assigned''
       \<in> set (errors (validateAssignments toStr_whole ?batch testTrucks testLoads))"
    by (simp add: s)
  have r3: "validateAssignments toStr_whole ?batch testTrucks testLoads
       = \<lparr> valid = False,
           errors = [''Truck T-003 is inactive'', ''Load L-1003 is already assigned''] \<rparr>"
    by (simp add: validateAssignments_def testTrucks_def testLoads_def createTruck_def
        createLoad_def status_string_def)
  from p r1 h1 h2 h3 h4 r2 r3 show ?thesis
    by blast
qed

text \<open>
  C8. All applicable checks of a pair are evaluated: when the load and the truck of a
  pair are found, its errors are the message of the inactive truck, the message of the
  exceeded capacity and the message of the status, each present exactly when its
  condition holds, in this order. So an inactive truck together with an exceeded
  capacity puts both messages into the result of the batch, and the two differ; and a
  load that is not unassigned puts its message there whatever else was found. The
  errors of every batch are the errors of its pairs, each validated alone, one after the
  other: no pair suppresses the checks of another.
\<close>

theorem validateAssignments_multiple_errors:
  "errors (validateAssignments toStr assignments trucks loads)
     = concat (map (\<lambda>p. errors (validateAssignments toStr [p] trucks loads)) assignments)
   \<and> (find (\<lambda>l. loadId l = asg_loadId a) loads = Some load
      \<and> find (\<lambda>t. truckId t = asg_truckId a) trucks = Some truck
      \<longrightarrow> errors (validateAssignments toStr [a] trucks loads)
           = (if \<not> active truck then [''Truck '' @ asg_truckId a @ '' is inactive''] else [])
             @ (if sizeTons load > capacityTons truck
                then [''Load '' @ asg_loadId a @ '' ('' @ toStr (sizeTons load)
                      @ ''T) exceeds truck '' @ asg_truckId a @ '' capacity (''
                      @ toStr (capacityTons truck) @ ''T)'']
                else [])
             @ (if status load \<noteq> unassigned
                then [''Load '' @ asg_loadId a @ '' is already ''
                      @ status_string (status load)]
                else []))
   \<and> (a \<in> set assignments
      \<and> find (\<lambda>l. loadId l = asg_loadId a) loads = Some load
      \<and> find (\<lambda>t. truckId t = asg_truckId a) trucks = Some truck
      \<and> \<not> active truck
      \<and> sizeTons load > capacityTons truck
      \<longrightarrow> ''Truck '' @ asg_truckId a @ '' is inactive''
             \<in> set (errors (validateAssignments toStr assignments trucks loads))
         \<and> ''Load '' @ asg_loadId a @ '' ('' @ toStr (sizeTons load) @ ''T) exceeds truck ''
               @ asg_truckId a @ '' capacity ('' @ toStr (capacityTons truck) @ ''T)''
             \<in> set (errors (validateAssignments toStr assignments trucks loads))
         \<and> ''Truck '' @ asg_truckId a @ '' is inactive''
             \<noteq> ''Load '' @ asg_loadId a @ '' ('' @ toStr (sizeTons load)
               @ ''T) exceeds truck '' @ asg_truckId a @ '' capacity (''
               @ toStr (capacityTons truck) @ ''T)'')
   \<and> (a \<in> set assignments
      \<and> find (\<lambda>l. loadId l = asg_loadId a) loads = Some load
      \<and> find (\<lambda>t. truckId t = asg_truckId a) trucks = Some truck
      \<and> status load \<noteq> unassigned
      \<longrightarrow> ''Load '' @ asg_loadId a @ '' is already '' @ status_string (status load)
             \<in> set (errors (validateAssignments toStr assignments trucks loads)))"
proof (intro conjI impI)
  show "errors (validateAssignments toStr assignments trucks loads)
     = concat (map (\<lambda>p. errors (validateAssignments toStr [p] trucks loads)) assignments)"
    by (rule errors_concat)
next
  assume "find (\<lambda>l. loadId l = asg_loadId a) loads = Some load
      \<and> find (\<lambda>t. truckId t = asg_truckId a) trucks = Some truck"
  then show "errors (validateAssignments toStr [a] trucks loads)
           = (if \<not> active truck then [''Truck '' @ asg_truckId a @ '' is inactive''] else [])
             @ (if sizeTons load > capacityTons truck
                then [''Load '' @ asg_loadId a @ '' ('' @ toStr (sizeTons load)
                      @ ''T) exceeds truck '' @ asg_truckId a @ '' capacity (''
                      @ toStr (capacityTons truck) @ ''T)'']
                else [])
             @ (if status load \<noteq> unassigned
                then [''Load '' @ asg_loadId a @ '' is already ''
                      @ status_string (status load)]
                else [])"
    using single_pair_errors [of a loads load trucks truck toStr]
    by (simp add: errors_validateAssignments del: validate_loop.simps)
next
  let ?inactive = "''Truck '' @ asg_truckId a @ '' is inactive''"
  let ?capacity = "''Load '' @ asg_loadId a @ '' ('' @ toStr (sizeTons load)
             @ ''T) exceeds truck '' @ asg_truckId a @ '' capacity (''
             @ toStr (capacityTons truck) @ ''T)''"
  assume h: "a \<in> set assignments
      \<and> find (\<lambda>l. loadId l = asg_loadId a) loads = Some load
      \<and> find (\<lambda>t. truckId t = asg_truckId a) trucks = Some truck
      \<and> \<not> active truck
      \<and> sizeTons load > capacityTons truck"
  then have one: "{?inactive, ?capacity} \<subseteq> set (validate_loop toStr [a] trucks loads [])"
    using single_pair_errors [of a loads load trucks truck toStr]
    by (simp del: validate_loop.simps)
  from h have "set (validate_loop toStr [a] trucks loads [])
          \<subseteq> set (validate_loop toStr assignments trucks loads [])"
    by (intro pair_errors_subset) simp
  with one have "?inactive \<in> set (validate_loop toStr assignments trucks loads [])"
    and "?capacity \<in> set (validate_loop toStr assignments trucks loads [])"
    by auto
  then show "?inactive \<in> set (errors (validateAssignments toStr assignments trucks loads))"
    and "?capacity \<in> set (errors (validateAssignments toStr assignments trucks loads))"
    by (simp_all add: errors_validateAssignments del: validate_loop.simps)
  show "?inactive \<noteq> ?capacity" by simp
next
  let ?already = "''Load '' @ asg_loadId a @ '' is already '' @ status_string (status load)"
  assume h: "a \<in> set assignments
      \<and> find (\<lambda>l. loadId l = asg_loadId a) loads = Some load
      \<and> find (\<lambda>t. truckId t = asg_truckId a) trucks = Some truck
      \<and> status load \<noteq> unassigned"
  then have "?already \<in> set (validate_loop toStr [a] trucks loads [])"
    using single_pair_errors [of a loads load trucks truck toStr]
    by (simp del: validate_loop.simps)
  moreover from h have "set (validate_loop toStr [a] trucks loads [])
          \<subseteq> set (validate_loop toStr assignments trucks loads [])"
    by (intro pair_errors_subset) simp
  ultimately show "?already
      \<in> set (errors (validateAssignments toStr assignments trucks loads))"
    by (auto simp: errors_validateAssignments simp del: validate_loop.simps)
qed

theorem validateAssignments_multiple_errors_witness:
  "faultyBatch ! 1 \<in> set faultyBatch
   \<and> find (\<lambda>l. loadId l = asg_loadId (faultyBatch ! 1)) testLoads = Some (testLoads ! 1)
   \<and> find (\<lambda>t. truckId t = asg_truckId (faultyBatch ! 1)) (testTrucks @ [smallInactive])
       = Some smallInactive
   \<and> \<not> active smallInactive
   \<and> sizeTons (testLoads ! 1) > capacityTons smallInactive
   \<and> ''Truck T-004 is inactive''
       \<in> set (errors (validateAssignments toStr_whole faultyBatch
                        (testTrucks @ [smallInactive]) testLoads))
   \<and> ''Load L-1002 (15T) exceeds truck T-004 capacity (12T)''
       \<in> set (errors (validateAssignments toStr_whole faultyBatch
                        (testTrucks @ [smallInactive]) testLoads))
   \<and> errors (validateAssignments toStr_whole [faultyBatch ! 1]
                (testTrucks @ [smallInactive]) testLoads)
       = [''Truck T-004 is inactive'',
          ''Load L-1002 (15T) exceeds truck T-004 capacity (12T)'']
   \<and> faultyBatch ! 2 \<in> set faultyBatch
   \<and> find (\<lambda>l. loadId l = asg_loadId (faultyBatch ! 2)) testLoads = Some (testLoads ! 2)
   \<and> find (\<lambda>t. truckId t = asg_truckId (faultyBatch ! 2)) (testTrucks @ [smallInactive])
       = Some (testTrucks ! 0)
   \<and> status (testLoads ! 2) \<noteq> unassigned
   \<and> ''Load L-1003 is already assigned''
       \<in> set (errors (validateAssignments toStr_whole faultyBatch
                        (testTrucks @ [smallInactive]) testLoads))
   \<and> errors (validateAssignments toStr_whole faultyBatch (testTrucks @ [smallInactive]) testLoads)
       = [''Load L-9999 not found'', ''Truck T-004 is inactive'',
          ''Load L-1002 (15T) exceeds truck T-004 capacity (12T)'',
          ''Load L-1003 is already assigned'']"
proof -
  let ?trucks = "testTrucks @ [smallInactive]"
  have h1: "faultyBatch ! 1 \<in> set faultyBatch"
    by (simp add: faultyBatch_def)
  have h2: "find (\<lambda>l. loadId l = asg_loadId (faultyBatch ! 1)) testLoads = Some (testLoads ! 1)"
    by (simp add: faultyBatch_def testLoads_def createLoad_def)
  have h3: "find (\<lambda>t. truckId t = asg_truckId (faultyBatch ! 1)) ?trucks = Some smallInactive"
    by (simp add: faultyBatch_def testTrucks_def smallInactive_def createTruck_def)
  have h4: "\<not> active smallInactive"
    by (simp add: smallInactive_def)
  have h5: "sizeTons (testLoads ! 1) > capacityTons smallInactive"
    by (simp add: smallInactive_def testLoads_def)
  have g1: "faultyBatch ! 2 \<in> set faultyBatch"
    by (simp add: faultyBatch_def)
  have g2: "find (\<lambda>l. loadId l = asg_loadId (faultyBatch ! 2)) testLoads = Some (testLoads ! 2)"
    by (simp add: faultyBatch_def testLoads_def createLoad_def)
  have g3: "find (\<lambda>t. truckId t = asg_truckId (faultyBatch ! 2)) ?trucks
              = Some (testTrucks ! 0)"
    by (simp add: faultyBatch_def testTrucks_def smallInactive_def createTruck_def)
  have g4: "status (testLoads ! 2) \<noteq> unassigned"
    by (simp add: testLoads_def)
  have v: "asg_truckId (faultyBatch ! 1) = ''T-004''" "asg_loadId (faultyBatch ! 1) = ''L-1002''"
    "asg_loadId (faultyBatch ! 2) = ''L-1003''"
    "toStr_whole (sizeTons (testLoads ! 1)) = ''15''"
    "toStr_whole (capacityTons smallInactive) = ''12''"
    "status (testLoads ! 1) = unassigned"
    "status_string (status (testLoads ! 2)) = ''assigned''"
    by (simp_all add: faultyBatch_def testLoads_def smallInactive_def createLoad_def
        status_string_def toStr_whole_values)
  note c1 = validateAssignments_multiple_errors
              [of toStr_whole faultyBatch ?trucks testLoads "faultyBatch ! 1"
                  "testLoads ! 1" smallInactive]
  note c2 = validateAssignments_multiple_errors
              [of toStr_whole faultyBatch ?trucks testLoads "faultyBatch ! 2"
                  "testLoads ! 2" "testTrucks ! 0"]
  from c1 h1 h2 h3 h4 h5
  have "''Truck '' @ asg_truckId (faultyBatch ! 1) @ '' is inactive''
          \<in> set (errors (validateAssignments toStr_whole faultyBatch ?trucks testLoads))"
    and "''Load '' @ asg_loadId (faultyBatch ! 1) @ '' (''
          @ toStr_whole (sizeTons (testLoads ! 1)) @ ''T) exceeds truck ''
          @ asg_truckId (faultyBatch ! 1) @ '' capacity (''
          @ toStr_whole (capacityTons smallInactive) @ ''T)''
          \<in> set (errors (validateAssignments toStr_whole faultyBatch ?trucks testLoads))"
    by blast+
  then have m1: "''Truck T-004 is inactive''
          \<in> set (errors (validateAssignments toStr_whole faultyBatch ?trucks testLoads))"
    and m2: "''Load L-1002 (15T) exceeds truck T-004 capacity (12T)''
          \<in> set (errors (validateAssignments toStr_whole faultyBatch ?trucks testLoads))"
    unfolding v by simp_all
  from c1 h2 h3
  have "errors (validateAssignments toStr_whole [faultyBatch ! 1] ?trucks testLoads)
          = (if \<not> active smallInactive
             then [''Truck '' @ asg_truckId (faultyBatch ! 1) @ '' is inactive''] else [])
            @ (if sizeTons (testLoads ! 1) > capacityTons smallInactive
               then [''Load '' @ asg_loadId (faultyBatch ! 1) @ '' (''
                     @ toStr_whole (sizeTons (testLoads ! 1)) @ ''T) exceeds truck ''
                     @ asg_truckId (faultyBatch ! 1) @ '' capacity (''
                     @ toStr_whole (capacityTons smallInactive) @ ''T)'']
               else [])
            @ (if status (testLoads ! 1) \<noteq> unassigned
               then [''Load '' @ asg_loadId (faultyBatch ! 1) @ '' is already ''
                     @ status_string (status (testLoads ! 1))]
               else [])"
    by blast
  then have m3: "errors (validateAssignments toStr_whole [faultyBatch ! 1] ?trucks testLoads)
       = [''Truck T-004 is inactive'',
          ''Load L-1002 (15T) exceeds truck T-004 capacity (12T)'']"
    using h4 h5 unfolding v by simp
  from c2 g1 g2 g3 g4
  have "''Load '' @ asg_loadId (faultyBatch ! 2) @ '' is already ''
          @ status_string (status (testLoads ! 2))
          \<in> set (errors (validateAssignments toStr_whole faultyBatch ?trucks testLoads))"
    by blast
  then have m4: "''Load L-1003 is already assigned''
          \<in> set (errors (validateAssignments toStr_whole faultyBatch ?trucks testLoads))"
    unfolding v by simp
  have e: "errors (validateAssignments toStr_whole faultyBatch ?trucks testLoads)
       = [''Load L-9999 not found'', ''Truck T-004 is inactive'',
          ''Load L-1002 (15T) exceeds truck T-004 capacity (12T)'',
          ''Load L-1003 is already assigned'']"
    by (simp add: validateAssignments_def faultyBatch_def testTrucks_def testLoads_def
        smallInactive_def createTruck_def createLoad_def status_string_def
        toStr_whole_values)
  from h1 h2 h3 h4 h5 m1 m2 m3 g1 g2 g3 g4 m4 e show ?thesis
    by blast
qed

text \<open>
  C10. Lookup is first-match. A pair is checked against the first truck of the
  collection that carries its \<open>truckId\<close> and the first load that carries its \<open>loadId\<close>:
  its errors are the findings of the three checks on these two records, whatever
  follows them in the collections. A truck whose \<open>truckId\<close> already occurs earlier in the
  trucks collection, and a load whose \<open>loadId\<close> already occurs earlier in the loads
  collection, have no effect: the result is the one obtained without the later record,
  for every batch. The errors of a batch are those of its pairs, in order.
\<close>

theorem validateAssignments_first_match:
  "(t1 \<in> set ts1 \<and> truckId t1 = truckId t \<longrightarrow>
      validateAssignments toStr assignments (ts1 @ t # ts2) loads
        = validateAssignments toStr assignments (ts1 @ ts2) loads)
   \<and> (l1 \<in> set ls1 \<and> loadId l1 = loadId l \<longrightarrow>
      validateAssignments toStr assignments trucks (ls1 @ l # ls2)
        = validateAssignments toStr assignments trucks (ls1 @ ls2))
   \<and> (list_all (\<lambda>r. truckId r \<noteq> asg_truckId a) ts1 \<and> truckId t = asg_truckId a
      \<and> list_all (\<lambda>r. loadId r \<noteq> asg_loadId a) ls1 \<and> loadId l = asg_loadId a \<longrightarrow>
      errors (validateAssignments toStr [a] (ts1 @ t # ts2) (ls1 @ l # ls2))
        = (if \<not> active t then [''Truck '' @ asg_truckId a @ '' is inactive''] else [])
          @ (if sizeTons l > capacityTons t
             then [''Load '' @ asg_loadId a @ '' ('' @ toStr (sizeTons l)
                   @ ''T) exceeds truck '' @ asg_truckId a @ '' capacity (''
                   @ toStr (capacityTons t) @ ''T)'']
             else [])
          @ (if status l \<noteq> unassigned
             then [''Load '' @ asg_loadId a @ '' is already '' @ status_string (status l)]
             else [])
      \<and> validateAssignments toStr [a] (ts1 @ t # ts2) (ls1 @ l # ls2)
        = validateAssignments toStr [a] [t] [l])
   \<and> errors (validateAssignments toStr assignments trucks loads)
     = concat (map (\<lambda>p. errors (validateAssignments toStr [p] trucks loads)) assignments)"
proof (intro conjI impI)
  assume "t1 \<in> set ts1 \<and> truckId t1 = truckId t"
  then have "\<And>k. find (\<lambda>r. truckId r = k) (ts1 @ t # ts2)
                  = find (\<lambda>r. truckId r = k) (ts1 @ ts2)"
    using find_drop_later [of t1 ts1 truckId t] by simp
  then have "validate_loop toStr assignments (ts1 @ t # ts2) loads []
               = validate_loop toStr assignments (ts1 @ ts2) loads []"
    by (rule validate_loop_cong_find) simp
  then show "validateAssignments toStr assignments (ts1 @ t # ts2) loads
               = validateAssignments toStr assignments (ts1 @ ts2) loads"
    by (simp add: validateAssignments_def)
next
  assume "l1 \<in> set ls1 \<and> loadId l1 = loadId l"
  then have "\<And>k. find (\<lambda>r. loadId r = k) (ls1 @ l # ls2)
                  = find (\<lambda>r. loadId r = k) (ls1 @ ls2)"
    using find_drop_later [of l1 ls1 loadId l] by simp
  then have "validate_loop toStr assignments trucks (ls1 @ l # ls2) []
               = validate_loop toStr assignments trucks (ls1 @ ls2) []"
    by (intro validate_loop_cong_find) simp_all
  then show "validateAssignments toStr assignments trucks (ls1 @ l # ls2)
               = validateAssignments toStr assignments trucks (ls1 @ ls2)"
    by (simp add: validateAssignments_def)
next
  assume h: "list_all (\<lambda>r. truckId r \<noteq> asg_truckId a) ts1 \<and> truckId t = asg_truckId a
      \<and> list_all (\<lambda>r. loadId r \<noteq> asg_loadId a) ls1 \<and> loadId l = asg_loadId a"
  have ft: "find (\<lambda>r. truckId r = asg_truckId a) (ts1 @ t # ts2) = Some t"
    using h by (intro find_first) simp_all
  have fl: "find (\<lambda>r. loadId r = asg_loadId a) (ls1 @ l # ls2) = Some l"
    using h by (intro find_first) simp_all
  have ft1: "find (\<lambda>r. truckId r = asg_truckId a) [t] = Some t"
    using h by simp
  have fl1: "find (\<lambda>r. loadId r = asg_loadId a) [l] = Some l"
    using h by simp
  have big: "validate_loop toStr [a] (ts1 @ t # ts2) (ls1 @ l # ls2) []
        = (if \<not> active t then [''Truck '' @ asg_truckId a @ '' is inactive''] else [])
          @ (if sizeTons l > capacityTons t
             then [''Load '' @ asg_loadId a @ '' ('' @ toStr (sizeTons l)
                   @ ''T) exceeds truck '' @ asg_truckId a @ '' capacity (''
                   @ toStr (capacityTons t) @ ''T)'']
             else [])
          @ (if status l \<noteq> unassigned
             then [''Load '' @ asg_loadId a @ '' is already '' @ status_string (status l)]
             else [])"
    by (rule single_pair_errors [OF fl ft])
  then show "errors (validateAssignments toStr [a] (ts1 @ t # ts2) (ls1 @ l # ls2))
        = (if \<not> active t then [''Truck '' @ asg_truckId a @ '' is inactive''] else [])
          @ (if sizeTons l > capacityTons t
             then [''Load '' @ asg_loadId a @ '' ('' @ toStr (sizeTons l)
                   @ ''T) exceeds truck '' @ asg_truckId a @ '' capacity (''
                   @ toStr (capacityTons t) @ ''T)'']
             else [])
          @ (if status l \<noteq> unassigned
             then [''Load '' @ asg_loadId a @ '' is already '' @ status_string (status l)]
             else [])"
    by (simp only: errors_validateAssignments)
  have "validate_loop toStr [a] (ts1 @ t # ts2) (ls1 @ l # ls2) []
          = validate_loop toStr [a] [t] [l] []"
    by (simp only: big single_pair_errors [OF fl1 ft1])
  then show "validateAssignments toStr [a] (ts1 @ t # ts2) (ls1 @ l # ls2)
        = validateAssignments toStr [a] [t] [l]"
    by (simp add: validateAssignments_def del: validate_loop.simps)
next
  show "errors (validateAssignments toStr assignments trucks loads)
     = concat (map (\<lambda>p. errors (validateAssignments toStr [p] trucks loads)) assignments)"
    by (rule errors_concat)
qed

theorem validateAssignments_first_match_witness:
  "testTrucks ! 0 \<in> set testTrucks
   \<and> truckId (testTrucks ! 0) = truckId otherT001
   \<and> validateAssignments toStr_whole dupBatch (testTrucks @ otherT001 # []) testLoads
       = validateAssignments toStr_whole dupBatch (testTrucks @ []) testLoads
   \<and> testLoads ! 0 \<in> set testLoads
   \<and> loadId (testLoads ! 0) = loadId otherL1001
   \<and> validateAssignments toStr_whole dupBatch testTrucks (testLoads @ otherL1001 # [])
       = validateAssignments toStr_whole dupBatch testTrucks (testLoads @ [])
   \<and> validateAssignments toStr_whole dupBatch (testTrucks @ otherT001 # [])
        (testLoads @ otherL1001 # [])
       = \<lparr> valid = True, errors = [] \<rparr>
   \<and> list_all (\<lambda>r. truckId r \<noteq> asg_truckId (dupBatch ! 0)) [testTrucks ! 1]
   \<and> truckId otherT001 = asg_truckId (dupBatch ! 0)
   \<and> list_all (\<lambda>r. loadId r \<noteq> asg_loadId (dupBatch ! 0)) [testLoads ! 1]
   \<and> loadId otherL1001 = asg_loadId (dupBatch ! 0)
   \<and> validateAssignments toStr_whole [dupBatch ! 0]
        ([testTrucks ! 1] @ otherT001 # testTrucks) ([testLoads ! 1] @ otherL1001 # testLoads)
       = \<lparr> valid = False,
           errors = [''Truck T-001 is inactive'',
                     ''Load L-1001 (99T) exceeds truck T-001 capacity (1T)'',
                     ''Load L-1001 is already delivered''] \<rparr>
   \<and> validateAssignments toStr_whole [dupBatch ! 0] [otherT001] [otherL1001]
       = \<lparr> valid = False,
           errors = [''Truck T-001 is inactive'',
                     ''Load L-1001 (99T) exceeds truck T-001 capacity (1T)'',
                     ''Load L-1001 is already delivered''] \<rparr>
   \<and> validateAssignments toStr_whole [dupBatch ! 0] testTrucks testLoads
       = \<lparr> valid = True, errors = [] \<rparr>"
proof -
  have h1: "testTrucks ! 0 \<in> set testTrucks" "truckId (testTrucks ! 0) = truckId otherT001"
    by (simp_all add: testTrucks_def otherT001_def createTruck_def)
  have h2: "testLoads ! 0 \<in> set testLoads" "loadId (testLoads ! 0) = loadId otherL1001"
    by (simp_all add: testLoads_def otherL1001_def createLoad_def)
  have e: "validateAssignments toStr_whole dupBatch (testTrucks @ otherT001 # [])
             (testLoads @ otherL1001 # []) = \<lparr> valid = True, errors = [] \<rparr>"
    by (simp add: validateAssignments_def dupBatch_def testTrucks_def testLoads_def
        otherT001_def otherL1001_def createTruck_def createLoad_def)
  note c = validateAssignments_first_match
         [where ?t1.0 = "testTrucks ! 0" and ?ts1.0 = testTrucks and t = otherT001
            and ?ts2.0 = "[]" and ?l1.0 = "testLoads ! 0" and ?ls1.0 = testLoads
            and l = otherL1001 and ?ls2.0 = "[]" and trucks = testTrucks
            and loads = testLoads and assignments = dupBatch and toStr = toStr_whole]
  from c h1 have d1: "validateAssignments toStr_whole dupBatch (testTrucks @ otherT001 # [])
        testLoads = validateAssignments toStr_whole dupBatch (testTrucks @ []) testLoads"
    by blast
  from c h2 have d2: "validateAssignments toStr_whole dupBatch testTrucks
        (testLoads @ otherL1001 # [])
       = validateAssignments toStr_whole dupBatch testTrucks (testLoads @ [])"
    by blast
  have g: "list_all (\<lambda>r. truckId r \<noteq> asg_truckId (dupBatch ! 0)) [testTrucks ! 1]"
    "truckId otherT001 = asg_truckId (dupBatch ! 0)"
    "list_all (\<lambda>r. loadId r \<noteq> asg_loadId (dupBatch ! 0)) [testLoads ! 1]"
    "loadId otherL1001 = asg_loadId (dupBatch ! 0)"
    by (simp_all add: dupBatch_def testTrucks_def testLoads_def otherT001_def otherL1001_def
        createTruck_def createLoad_def)
  note p = validateAssignments_first_match
         [where a = "dupBatch ! 0" and ?ts1.0 = "[testTrucks ! 1]" and t = otherT001
            and ?ts2.0 = testTrucks and ?ls1.0 = "[testLoads ! 1]" and l = otherL1001
            and ?ls2.0 = testLoads and toStr = toStr_whole]
  from p g have same: "validateAssignments toStr_whole [dupBatch ! 0]
        ([testTrucks ! 1] @ otherT001 # testTrucks) ([testLoads ! 1] @ otherL1001 # testLoads)
       = validateAssignments toStr_whole [dupBatch ! 0] [otherT001] [otherL1001]"
    by blast
  have r1: "validateAssignments toStr_whole [dupBatch ! 0] [otherT001] [otherL1001]
       = \<lparr> valid = False,
           errors = [''Truck T-001 is inactive'',
                     ''Load L-1001 (99T) exceeds truck T-001 capacity (1T)'',
                     ''Load L-1001 is already delivered''] \<rparr>"
    by (simp add: validateAssignments_def dupBatch_def otherT001_def otherL1001_def
        createTruck_def createLoad_def status_string_def toStr_whole_values_more)
  have r2: "validateAssignments toStr_whole [dupBatch ! 0] testTrucks testLoads
       = \<lparr> valid = True, errors = [] \<rparr>"
    by (simp add: validateAssignments_def dupBatch_def testTrucks_def testLoads_def
        createTruck_def createLoad_def)
  from same r1 have r3: "validateAssignments toStr_whole [dupBatch ! 0]
        ([testTrucks ! 1] @ otherT001 # testTrucks) ([testLoads ! 1] @ otherL1001 # testLoads)
       = \<lparr> valid = False,
           errors = [''Truck T-001 is inactive'',
                     ''Load L-1001 (99T) exceeds truck T-001 capacity (1T)'',
                     ''Load L-1001 is already delivered''] \<rparr>"
    by (simp only:)
  from h1 h2 d1 d2 e g r1 r2 r3 show ?thesis
    by blast
qed

section \<open>The expectations of the test suite\<close>

text \<open>
  The model returns what utils/fairness.test.ts expects of the code, among them the
  average 2.7 (the double nearest to 27 / 10) of the weekly loads 2, 3, 3, and the
  metrics of the three-truck fleet with one inactive truck.
\<close>

lemma test_validate_correct:
  "validateAssignments toStr_whole
     [\<lparr>asg_loadId = ''L-1001'', asg_truckId = ''T-001''\<rparr>,
      \<lparr>asg_loadId = ''L-1002'', asg_truckId = ''T-001''\<rparr>] testTrucks testLoads
   = \<lparr> valid = True, errors = [] \<rparr>"
  by (simp add: validateAssignments_def testTrucks_def testLoads_def createTruck_def
      createLoad_def)

lemma test_truck_not_found:
  "validateAssignments toStr_whole [\<lparr>asg_loadId = ''L-1001'', asg_truckId = ''T-999''\<rparr>]
     testTrucks testLoads
   = \<lparr> valid = False, errors = [''Truck T-999 not found''] \<rparr>"
  by (simp add: validateAssignments_def testTrucks_def testLoads_def createTruck_def
      createLoad_def)

lemma test_already_assigned:
  "validateAssignments toStr_whole [\<lparr>asg_loadId = ''L-1003'', asg_truckId = ''T-001''\<rparr>]
     testTrucks testLoads
   = \<lparr> valid = False, errors = [''Load L-1003 is already assigned''] \<rparr>"
  by (simp add: validateAssignments_def testTrucks_def testLoads_def createTruck_def
      createLoad_def status_string_def)

lemma test_prioritize_below_quota:
  "map truckId (findSuitableTrucks (createLoad\<lparr>sizeTons := 10\<rparr>)
     [createTruck\<lparr>truckId := ''T-001'', weeklyLoads := 3\<rparr>,
      createTruck\<lparr>truckId := ''T-002'', weeklyLoads := 0\<rparr>,
      createTruck\<lparr>truckId := ''T-003'', weeklyLoads := 1\<rparr>])
   = [''T-002'', ''T-003'', ''T-001'']"
  by (simp add: findSuitableTrucks_def canLoadFitInTruck_def suitableCompare_def
      getLoadsNeededForQuota_def createTruck_def createLoad_def)

lemma test_capacity_filter:
  "map capacityTons (findSuitableTrucks (createLoad\<lparr>sizeTons := 15\<rparr>)
     [createTruck\<lparr>capacityTons := 10\<rparr>, createTruck\<lparr>capacityTons := 18\<rparr>,
      createTruck\<lparr>capacityTons := 20\<rparr>])
   = [18, 20]"
  by (simp add: findSuitableTrucks_def canLoadFitInTruck_def suitableCompare_def
      getLoadsNeededForQuota_def createTruck_def createLoad_def)

lemma test_below_quota_sorted:
  "map weeklyLoads (getTrucksBelowQuota
     [createTruck\<lparr>weeklyLoads := 2\<rparr>, createTruck\<lparr>weeklyLoads := 0\<rparr>,
      createTruck\<lparr>weeklyLoads := 1\<rparr>, createTruck\<lparr>weeklyLoads := 3\<rparr>,
      createTruck\<lparr>weeklyLoads := 0, active := False\<rparr>])
   = [0, 1, 2]"
  by (simp add: getTrucksBelowQuota_def createTruck_def)

lemma avg_8_3: "js_div (Math_round (js_mul (js_div (Num 8) 3) 10)) 10 = Num (fl (27 / 10))" 
  by code_simp

lemma avg_3_2: "js_div (Math_round (js_mul (js_div (Num 3) 2) 10)) 10 = Num (3/2)" 
  by code_simp

lemma test_round_average:
  "averageLoadsPerTruck (calculateFairnessMetrics
     [createTruck\<lparr>weeklyLoads := 2\<rparr>, createTruck\<lparr>weeklyLoads := 3\<rparr>,
      createTruck\<lparr>weeklyLoads := 3\<rparr>]) = Num (fl (27 / 10))"
proof -
  have "totalLoads [createTruck\<lparr>weeklyLoads := 2\<rparr>, createTruck\<lparr>weeklyLoads := 3\<rparr>,
      createTruck\<lparr>weeklyLoads := 3\<rparr>] = 8"
    by (simp add: totalLoads_def js_add_def createTruck_def fl_of_int [of 2, simplified]
        fl_of_int [of 5, simplified] fl_of_int [of 8, simplified])
  then show ?thesis
    by (simp add: calculateFairnessMetrics_def Let_def createTruck_def avg_8_3
        del: js_div.simps js_mul.simps Math_round.simps)
qed

lemma pct_0_2: "Math_round (js_mul (js_div (Num 0) 2) 100) = Num 0"
  by code_simp

lemma scenario_A:
  "calculateFairnessMetrics
     [createTruck\<lparr>id' := ''1'', weeklyLoads := 2\<rparr>,
      createTruck\<lparr>id' := ''2'', weeklyLoads := 5, active := False\<rparr>,
      createTruck\<lparr>id' := ''3'', weeklyLoads := 1\<rparr>]
   = \<lparr> totalTrucks = 2, trucksAtQuota = 0, trucksBelowQuota = 2, trucksAboveQuota = 0,
       fairnessPercentage = Num 0, averageLoadsPerTruck = Num (3 / 2) \<rparr>"
proof -
  have "totalLoads [createTruck\<lparr>id' := ''1'', weeklyLoads := 2\<rparr>,
                    createTruck\<lparr>id' := ''3'', weeklyLoads := 1\<rparr>] = 3"
    by (simp add: totalLoads_def js_add_def createTruck_def fl_of_int [of 2, simplified]
        fl_of_int [of 3, simplified])
  then show ?thesis
    by (simp add: calculateFairnessMetrics_def Let_def createTruck_def avg_3_2 pct_0_2
        del: js_div.simps js_mul.simps Math_round.simps)
qed

end
